theory Spec2Isabelle
  imports Main "HOL-Library.AList"
begin

section \<open>Shared vocabulary\<close>

text \<open>
  A token is an integer id of the model's vocabulary. A Python \<open>str\<close> is a \<open>string\<close>
  (texts are taken to be ASCII / Latin-1, one \<open>char\<close> per code point). A Python
  \<open>float\<close> is carried as its decimal literal: nothing in the Python sources computes
  with a float, they are only handed on to the native library.
\<close>

type_synonym token = int
type_synonym pyfloat = string

section \<open>The sampling loop of \<open>src/tests/test_llama_context.py\<close>\<close>

text \<open>
  \<open>test_eval\<close> drives a \<open>llamacpp.LlamaContext\<close>, an object of the native extension.
  Its methods are not Python code; the loop only needs what they return. The record
  below holds these results: tokenisation and detokenisation are functions of their
  argument, the sampled token is a function of everything that was done to the context
  so far (the log of calls, which stands for the context's internal state and for the
  state of its seeded random generator). Calls are taken to return normally.
\<close>

datatype ctx_event =
    Eval "token list" nat nat int
  | Sample "token list" int pyfloat pyfloat int token

record llama_context =
  str_to_token :: "string \<Rightarrow> bool \<Rightarrow> token list"
  token_to_str :: "token \<Rightarrow> string"
  sample_top_p_top_k :: "ctx_event list \<Rightarrow> token"

text \<open>The local variables of \<open>test_eval\<close>, and the calls made on the context so far.\<close>

record eval_state =
  n_past :: nat
  n_remain :: int
  n_consumed :: nat
  embd :: "token list"
  output_str :: string
  ctx_log :: "ctx_event list"

text \<open>Line 27 to 30: \<open>n_past, n_remain, n_consumed = 0, 8, 0\<close>, \<open>embd = []\<close>, \<open>output = ''\<close>.\<close>

definition initial_state :: eval_state where
  "initial_state =
     \<lparr>n_past = 0, n_remain = 8, n_consumed = 0, embd = [], output_str = [], ctx_log = []\<rparr>"

text \<open>
  Lines 52 to 55, the inner loop
  \<^verbatim>\<open>while len(embd_inp) > n_consumed: embd.append(embd_inp[n_consumed]); n_consumed += 1\<close>.
  The index is in range whenever the body runs.
\<close>

function consume_input :: "token list \<Rightarrow> eval_state \<Rightarrow> eval_state" where
  "consume_input embd_inp s =
     (if length embd_inp > n_consumed s
      then consume_input embd_inp
             (s\<lparr>embd := embd s @ [embd_inp ! n_consumed s], n_consumed := n_consumed s + 1\<rparr>)
      else s)"
  by pat_completeness auto
termination
  by (relation "measure (\<lambda>(embd_inp, s). length embd_inp - n_consumed s)") auto

declare consume_input.simps [simp del]

text \<open>Lines 32 to 35: evaluate what is pending, advance \<open>n_past\<close>, clear \<open>embd\<close>.\<close>

definition eval_pending :: "eval_state \<Rightarrow> eval_state" where
  "eval_pending s =
     (let s1 = (if length (embd s) \<noteq> 0
                then s\<lparr>ctx_log := ctx_log s @ [Eval (embd s) (length (embd s)) (n_past s) 1]\<rparr>
                else s);
          s2 = s1\<lparr>n_past := n_past s1 + length (embd s1)\<rparr>
      in s2\<lparr>embd := []\<rparr>)"

text \<open>
  Lines 37 to 49, the sample branch: one token is sampled (with an empty window of last
  tokens), appended to \<open>embd\<close>, and the budget is decremented.
\<close>

definition sample_step :: "llama_context \<Rightarrow> eval_state \<Rightarrow> eval_state" where
  "sample_step C s =
     (let top_k = 40; top_p = ''0.95''; temp = ''0.8''; repeat_last_n = 64;
          new_id = sample_top_p_top_k C (ctx_log s)
      in s\<lparr>ctx_log := ctx_log s @ [Sample [] top_k top_p temp repeat_last_n new_id],
            embd := embd s @ [new_id],
            n_remain := n_remain s - 1\<rparr>)"

text \<open>Lines 32 to 57: one iteration of \<open>while n_remain:\<close>.\<close>

definition loop_body :: "llama_context \<Rightarrow> token list \<Rightarrow> eval_state \<Rightarrow> eval_state" where
  "loop_body C embd_inp s =
     (let s1 = eval_pending s;
          s2 = (if length embd_inp \<le> n_consumed s1
                then sample_step C s1
                else consume_input embd_inp s1)
      in s2\<lparr>output_str := output_str s2 @ concat (map (token_to_str C) (embd s2))\<rparr>)"

text \<open>
  Line 31, \<open>while n_remain:\<close> runs as long as the budget is not zero; a negative budget
  never reaches zero, so the loop is a partial function and \<open>None\<close> stands for a run
  that does not end.
\<close>

partial_function (option) eval_loop ::
  "llama_context \<Rightarrow> token list \<Rightarrow> eval_state \<Rightarrow> eval_state option" where
  "eval_loop C embd_inp s =
     (if n_remain s \<noteq> 0 then eval_loop C embd_inp (loop_body C embd_inp s) else Some s)"

declare eval_loop.simps [code]

text \<open>The whole test: the value is whether the final assertion holds.\<close>

definition test_eval :: "llama_context \<Rightarrow> bool option" where
  "test_eval C =
     (let embd_inp = str_to_token C '' Llama is'' True
      in map_option (\<lambda>s. output_str s = '' Llama is the newest member of our farm family'')
           (eval_loop C embd_inp initial_state))"



fun sampled :: "ctx_event list \<Rightarrow> token list" where
  "sampled [] = []"
| "sampled (Eval toks n p t # es) = sampled es"
| "sampled (Sample w k p t r x # es) = x # sampled es"


section \<open>Python values, exceptions and the outside world of \<open>src/llamacpp/cli.py\<close>\<close>

text \<open>
  The values an attribute of the parsed arguments can hold, and the exceptions that can
  leave \<open>main\<close>. \<open>OSError\<close> stands for any failure of \<open>open\<close> or \<open>read\<close>,
  \<open>LlamaError\<close> for any exception raised inside the native \<open>llamacpp\<close> module.
  An interrupt from the keyboard has no place in this model.
\<close>

datatype pyval = PyNone | PyBool bool | PyInt int | PyFloat pyfloat | PyStr string

datatype exn =
    TypeError
  | AttributeError string
  | UnboundLocalError string
  | EOFError
  | OSError
  | SystemExit int
  | LlamaError

definition digit_of :: "char \<Rightarrow> nat option" where
  "digit_of c = (let n = (of_char c :: nat) in if 48 \<le> n \<and> n \<le> 57 then Some (n - 48) else None)"

definition all_digits :: "string \<Rightarrow> bool" where
  "all_digits s = list_all (\<lambda>c. digit_of c \<noteq> None) s"

text \<open>
  Python's truth value of an object: \<open>None\<close>, \<open>False\<close>, zero and the empty string are
  false. A float literal is zero when it has no digit other than \<open>0\<close>.
\<close>

fun truthy :: "pyval \<Rightarrow> bool" where
  "truthy PyNone = False"
| "truthy (PyBool b) = b"
| "truthy (PyInt i) = (i \<noteq> 0)"
| "truthy (PyFloat f) = list_ex (\<lambda>c. digit_of c \<noteq> None \<and> digit_of c \<noteq> Some 0) f"
| "truthy (PyStr s) = (s \<noteq> [])"

text \<open>
  An \<open>argparse.Namespace\<close> is a bag of attributes: reading one that was never set raises
  \<open>AttributeError\<close>, assigning creates or replaces it.
\<close>

type_synonym namespace = "(string \<times> pyval) list"

definition getattr :: "namespace \<Rightarrow> string \<Rightarrow> exn + pyval" where
  "getattr ns name = (case map_of ns name of None \<Rightarrow> Inl (AttributeError name) | Some v \<Rightarrow> Inr v)"

definition setattr :: "namespace \<Rightarrow> string \<Rightarrow> pyval \<Rightarrow> namespace" where
  "setattr ns name v = AList.update name v ns"

text \<open>Several attributes read from left to right; the first missing one raises.\<close>

fun getattrs :: "namespace \<Rightarrow> string list \<Rightarrow> exn + pyval list" where
  "getattrs ns [] = Inr []"
| "getattrs ns (name # names) =
     (case getattr ns name of
        Inl e \<Rightarrow> Inl e
      | Inr v \<Rightarrow> (case getattrs ns names of Inl e \<Rightarrow> Inl e | Inr vs \<Rightarrow> Inr (v # vs)))"

text \<open>
  The calls \<open>cli.py\<close> makes into the native \<open>llamacpp\<close> module. The module is not Python
  code of this program: it is an object that is only known through these calls, so its
  state is the log of the calls made so far, and what a call answers (or whether it
  raises) is a function of that log, given by a record of type \<open>llamacpp\<close>.
\<close>

datatype llama_call =
    Gpt_params "pyval list"
  | PyLLAMA_new
  | AddBos
  | UpdateInput string
  | PrintStartupStats
  | PrepareContext
  | Tokenize string bool
  | SetAntiprompt string
  | IsFinished
  | HasUnconsumedInput
  | IngestAllPendingInput bool
  | InferText
  | IsAntipromptPresent
  | UpdateInputTokens "token list"
  | ResetRemainingTokens

record llamacpp =
  raises :: "llama_call list \<Rightarrow> llama_call \<Rightarrow> bool"
  tokenize_result :: "llama_call list \<Rightarrow> string \<Rightarrow> bool \<Rightarrow> token list"
  is_finished_result :: "llama_call list \<Rightarrow> bool"
  has_unconsumed_input_result :: "llama_call list \<Rightarrow> bool"
  infer_text_result :: "llama_call list \<Rightarrow> string \<times> bool"
  is_antiprompt_present_result :: "llama_call list \<Rightarrow> bool"

text \<open>
  The world outside the program: the text files that can be opened and read, the lines
  waiting on standard input, what was printed, and the log of calls into \<open>llamacpp\<close>.
\<close>

record world =
  files :: "(string \<times> string) list"
  stdin :: "string list"
  stdout :: string
  llama_log :: "llama_call list"

text \<open>A statement either raises or yields a value, and changes the world.\<close>

type_synonym 'a io = "world \<Rightarrow> (exn + 'a) \<times> world"

definition io_return :: "'a \<Rightarrow> 'a io" where
  "io_return x = (\<lambda>w. (Inr x, w))"

definition io_raise :: "exn \<Rightarrow> 'a io" where
  "io_raise e = (\<lambda>w. (Inl e, w))"

definition io_of :: "exn + 'a \<Rightarrow> 'a io" where
  "io_of r = (\<lambda>w. (r, w))"

definition io_bind :: "'a io \<Rightarrow> ('a \<Rightarrow> 'b io) \<Rightarrow> 'b io" where
  "io_bind m f = (\<lambda>w. case m w of (Inl e, w') \<Rightarrow> (Inl e, w') | (Inr x, w') \<Rightarrow> f x w')"

definition invoke :: "llamacpp \<Rightarrow> llama_call \<Rightarrow> (llama_call list \<Rightarrow> 'a) \<Rightarrow> 'a io" where
  "invoke L c answer =
     (\<lambda>w. if raises L (llama_log w) c then (Inl LlamaError, w)
          else (Inr (answer (llama_log w)), w\<lparr>llama_log := llama_log w @ [c]\<rparr>))"

definition command :: "llamacpp \<Rightarrow> llama_call \<Rightarrow> unit io" where
  "command L c = invoke L c (\<lambda>_. ())"

text \<open>\<open>print(text, end=e)\<close>, and \<open>input()\<close>, which raises at the end of the input.\<close>

definition py_print :: "string \<Rightarrow> string \<Rightarrow> unit io" where
  "py_print text e = (\<lambda>w. (Inr (), w\<lparr>stdout := stdout w @ text @ e\<rparr>))"

definition py_input :: "string io" where
  "py_input = (\<lambda>w. case stdin w of [] \<Rightarrow> (Inl EOFError, w) | l # ls \<Rightarrow> (Inr l, w\<lparr>stdin := ls\<rparr>))"

text \<open>\<open>with open(path, "r") as f: f.read()\<close>.\<close>

definition read_file :: "string \<Rightarrow> string io" where
  "read_file path =
     (\<lambda>w. case map_of (files w) path of None \<Rightarrow> (Inl OSError, w) | Some c \<Rightarrow> (Inr c, w))"

text \<open>\<open>str.strip()\<close>: the white space of Latin-1 is removed at both ends.\<close>

definition py_isspace :: "char \<Rightarrow> bool" where
  "py_isspace c =
     (let n = (of_char c :: nat)
      in (9 \<le> n \<and> n \<le> 13) \<or> (28 \<le> n \<and> n \<le> 32) \<or> n = 133 \<or> n = 160)"

definition py_strip :: "string \<Rightarrow> string" where
  "py_strip s = rev (dropWhile py_isspace (rev (dropWhile py_isspace s)))"

section \<open>\<open>parse_args_into_params\<close>\<close>

text \<open>
  Each \<open>add_argument\<close> call declares the option strings, what to do when one is met
  (\<open>store_true\<close>, or store the next argument converted by \<open>type\<close>), and the default.
\<close>

datatype arg_type = Str_type | Int_type | Float_type

datatype arg_action = Store_true | Store arg_type

record argument =
  option_strings :: "string list"
  action :: arg_action
  default_value :: pyval

definition add_argument :: "string list \<Rightarrow> arg_action \<Rightarrow> pyval \<Rightarrow> argument" where
  "add_argument names a d = \<lparr>option_strings = names, action = a, default_value = d\<rparr>"

text \<open>Lines 10 to 78, in the order of the source.\<close>

definition parser_arguments :: "argument list" where
  "parser_arguments =
     [add_argument [''-i'', ''--interactive''] Store_true (PyBool False),
      add_argument [''-ins'', ''--instruct''] Store_true (PyBool False),
      add_argument [''-r'', ''--reverse-prompt''] (Store Str_type) (PyStr []),
      add_argument [''--color''] Store_true (PyBool False),
      add_argument [''-s'', ''--seed''] (Store Int_type) (PyInt (- 1)),
      add_argument [''-t'', ''--threads''] (Store Int_type) (PyInt 4),
      add_argument [''-p'', ''--prompt''] (Store Str_type) PyNone,
      add_argument [''-f'', ''--file''] (Store Str_type) (PyStr []),
      add_argument [''-n'', ''--n_predict''] (Store Int_type) (PyInt 128),
      add_argument [''--top_k''] (Store Int_type) (PyInt 40),
      add_argument [''--top_p''] (Store Float_type) (PyFloat ''0.95''),
      add_argument [''--repeat_last_n''] (Store Int_type) (PyInt 64),
      add_argument [''--repeat_penalty''] (Store Float_type) (PyFloat ''1.30''),
      add_argument [''-c'', ''--ctx_size''] (Store Int_type) (PyInt 4096),
      add_argument [''--temp''] (Store Float_type) (PyFloat ''0.8''),
      add_argument [''-b'', ''--batch_size''] (Store Int_type) (PyInt 8),
      add_argument [''-m'', ''--model''] (Store Str_type) (PyStr ''./models/7B/ggml-model-q4_0.bin'')]"

text \<open>
  The attribute an option is stored under, as \<open>argparse\<close> derives it: the first long
  option string (else the first option string), without its leading dashes, and with
  every remaining dash replaced by an underscore.
\<close>

definition is_long_option :: "string \<Rightarrow> bool" where
  "is_long_option s = (case s of c # d # _ \<Rightarrow> c = CHR ''-'' \<and> d = CHR ''-'' | _ \<Rightarrow> False)"

definition dest :: "argument \<Rightarrow> string" where
  "dest a =
     (let first = (case filter is_long_option (option_strings a) of
                     l # _ \<Rightarrow> l
                   | [] \<Rightarrow> (case option_strings a of s # _ \<Rightarrow> s | [] \<Rightarrow> []))
      in map (\<lambda>c. if c = CHR ''-'' then CHR ''_'' else c) (dropWhile (\<lambda>c. c = CHR ''-'') first))"

text \<open>
  The conversions \<open>int\<close> and \<open>float\<close> of an argument: an optional sign and decimal digits,
  with an optional fraction for a float. (Python accepts more spellings, such as
  exponents and surrounding blanks; the model rejects them.)
\<close>

fun digits_value :: "nat \<Rightarrow> string \<Rightarrow> nat option" where
  "digits_value acc [] = Some acc"
| "digits_value acc (c # cs) =
     (case digit_of c of None \<Rightarrow> None | Some d \<Rightarrow> digits_value (10 * acc + d) cs)"

definition unsigned_part :: "string \<Rightarrow> string" where
  "unsigned_part s =
     (case s of c # cs \<Rightarrow> if c = CHR ''-'' \<or> c = CHR ''+'' then cs else s | [] \<Rightarrow> [])"

definition py_int :: "string \<Rightarrow> int option" where
  "py_int s =
     (if unsigned_part s = [] then None
      else case digits_value 0 (unsigned_part s) of
             None \<Rightarrow> None
           | Some n \<Rightarrow> Some (if take 1 s = ''-'' then - int n else int n))"

definition py_float :: "string \<Rightarrow> pyfloat option" where
  "py_float s =
     (let body = unsigned_part s;
          whole = takeWhile (\<lambda>c. c \<noteq> CHR ''.'') body;
          frac = drop 1 (dropWhile (\<lambda>c. c \<noteq> CHR ''.'') body)
      in if all_digits whole \<and> all_digits frac \<and> (whole \<noteq> [] \<or> frac \<noteq> [])
         then Some s else None)"

definition convert :: "arg_type \<Rightarrow> string \<Rightarrow> pyval option" where
  "convert ty s =
     (case ty of
        Str_type \<Rightarrow> Some (PyStr s)
      | Int_type \<Rightarrow> map_option PyInt (py_int s)
      | Float_type \<Rightarrow> map_option PyFloat (py_float s))"

text \<open>
  An argument that starts with a dash is taken for an option, and so cannot be the
  value of another option, unless it is a lone dash, a negative number or contains a
  blank.
\<close>

definition negative_number :: "string \<Rightarrow> bool" where
  "negative_number s =
     (case s of
        c # cs \<Rightarrow>
          c = CHR ''-'' \<and>
          (let whole = takeWhile (\<lambda>c. c \<noteq> CHR ''.'') cs;
               rest = dropWhile (\<lambda>c. c \<noteq> CHR ''.'') cs
           in all_digits whole \<and>
              (case rest of [] \<Rightarrow> whole \<noteq> [] | _ # frac \<Rightarrow> frac \<noteq> [] \<and> all_digits frac))
      | [] \<Rightarrow> False)"

definition looks_like_option :: "string \<Rightarrow> bool" where
  "looks_like_option s =
     (case s of
        c # cs \<Rightarrow> c = CHR ''-'' \<and> cs \<noteq> [] \<and> \<not> negative_number s \<and> CHR '' '' \<notin> set s
      | [] \<Rightarrow> False)"

definition find_argument :: "string \<Rightarrow> argument option" where
  "find_argument s = find (\<lambda>a. s \<in> set (option_strings a)) parser_arguments"

text \<open>
  \<open>parse_args\<close> on the arguments after the program name. The model knows the option
  strings exactly as declared, each valued option followed by its value as the next
  argument, and \<open>-h\<close>/\<open>--help\<close>. Anything else is collected as unrecognised and ends
  the program with status 2 once all arguments are read; a missing or malformed value
  ends it at once. (\<open>argparse\<close> also accepts unambiguous prefixes of long options and
  values attached with \<open>=\<close> or directly to a short option; the model rejects these
  spellings.)
\<close>

fun parse_known_args :: "namespace \<Rightarrow> string list \<Rightarrow> string list \<Rightarrow> exn + namespace" where
  "parse_known_args ns extras [] = (if extras = [] then Inr ns else Inl (SystemExit 2))"
| "parse_known_args ns extras (s # rest) =
     (if s = ''-h'' \<or> s = ''--help'' then Inl (SystemExit 0)
      else case find_argument s of
        None \<Rightarrow> parse_known_args ns (extras @ [s]) rest
      | Some a \<Rightarrow>
          (case action a of
             Store_true \<Rightarrow> parse_known_args (setattr ns (dest a) (PyBool True)) extras rest
           | Store ty \<Rightarrow>
               (case rest of
                  [] \<Rightarrow> Inl (SystemExit 2)
                | v # rest' \<Rightarrow>
                    if looks_like_option v then Inl (SystemExit 2)
                    else (case convert ty v of
                            None \<Rightarrow> Inl (SystemExit 2)
                          | Some x \<Rightarrow> parse_known_args (setattr ns (dest a) x) extras rest'))))"

definition default_namespace :: namespace where
  "default_namespace = map (\<lambda>a. (dest a, default_value a)) parser_arguments"

text \<open>Lines 81 to 83: \<open>args = parser.parse_args(argv[1:])\<close>.\<close>

definition parse_args_into_params :: "string list \<Rightarrow> exn + namespace" where
  "parse_args_into_params argv = parse_known_args default_namespace [] (drop 1 argv)"

section \<open>\<open>process_interactive_input\<close>\<close>

text \<open>
  Lines 91 to 98. \<open>line.endswith("\\")\<close> asks for a last character that is a
  backslash, \<open>line[:-1]\<close> drops that one character. Every line read is handed to
  the model by a call of its own. The loop ends with the first line that has no
  trailing backslash, or with the \<open>EOFError\<close> of \<open>input()\<close> when the input runs out;
  each round takes a line from standard input, so the recursion terminates.
\<close>

definition escape_char :: char where
  "escape_char = CHR 0x5C"

definition ends_with_escape :: "string \<Rightarrow> bool" where
  "ends_with_escape line = (line \<noteq> [] \<and> last line = escape_char)"

function process_interactive_input :: "llamacpp \<Rightarrow> unit io" where
  "process_interactive_input L w =
     (case py_input w of
        (Inl e, w1) \<Rightarrow> (Inl e, w1)
      | (Inr line, w1) \<Rightarrow>
          if ends_with_escape line
          then (case command L (UpdateInput (butlast line)) w1 of
                  (Inl e, w2) \<Rightarrow> (Inl e, w2)
                | (Inr u, w2) \<Rightarrow> process_interactive_input L w2)
          else command L (UpdateInput line) w1)"
  by pat_completeness auto
termination
  by (relation "measure (\<lambda>(L, w). length (stdin w))")
    (auto simp: py_input_def command_def invoke_def split: list.splits if_splits)

declare process_interactive_input.simps [simp del]

section \<open>\<open>main\<close>\<close>

text \<open>
  Lines 104 to 110: the prompt is read from the file when \<open>args.file\<close> is not empty,
  and a blank is put in front of it. \<open>" " + args.prompt\<close> raises \<open>TypeError\<close> when
  the prompt is not a string. (\<open>argparse\<close> always leaves a string in \<open>args.file\<close>;
  another true value is reported as a \<open>TypeError\<close> of \<open>open\<close>.)
\<close>

definition read_prompt :: "namespace \<Rightarrow> namespace io" where
  "read_prompt args =
     io_bind (io_of (getattr args ''file'')) (\<lambda>file.
     io_bind (if truthy file
              then (case file of
                      PyStr path \<Rightarrow>
                        io_bind (read_file path) (\<lambda>contents.
                        io_return (setattr args ''prompt'' (PyStr (py_strip contents))))
                    | _ \<Rightarrow> io_raise TypeError)
              else io_return args) (\<lambda>args.
     io_bind (io_of (getattr args ''prompt'')) (\<lambda>prompt.
       case prompt of
         PyStr p \<Rightarrow> io_return (setattr args ''prompt'' (PyStr ('' '' @ p)))
       | _ \<Rightarrow> io_raise TypeError)))"

text \<open>
  Lines 112 to 134: the parameters are collected, the model is built and fed the
  prompt, and the two instruct framings are tokenised.
\<close>

definition gpt_params_attributes :: "string list" where
  "gpt_params_attributes =
     [''model'', ''ctx_size'', ''n_predict'', ''top_k'', ''top_p'', ''temp'',
      ''repeat_penalty'', ''seed'', ''threads'', ''repeat_last_n'', ''batch_size'']"

definition instruction_prefix :: string where
  "instruction_prefix = ''\<newline>\<newline>### Instruction:\<newline>\<newline>''"

definition response_suffix :: string where
  "response_suffix = ''\<newline>\<newline>### Response:\<newline>\<newline>''"

definition tokenize :: "llamacpp \<Rightarrow> string \<Rightarrow> bool \<Rightarrow> token list io" where
  "tokenize L text bos = invoke L (Tokenize text bos) (\<lambda>log. tokenize_result L log text bos)"

definition start_model :: "llamacpp \<Rightarrow> namespace \<Rightarrow> (token list \<times> token list) io" where
  "start_model L args =
     io_bind (io_of (getattrs args gpt_params_attributes)) (\<lambda>values.
     io_bind (command L (Gpt_params values)) (\<lambda>_.
     io_bind (command L PyLLAMA_new) (\<lambda>_.
     io_bind (command L AddBos) (\<lambda>_.
     io_bind (io_of (getattr args ''prompt'')) (\<lambda>prompt.
     io_bind (case prompt of
                PyStr p \<Rightarrow> command L (UpdateInput p)
              | _ \<Rightarrow> io_raise TypeError) (\<lambda>_.
     io_bind (command L PrintStartupStats) (\<lambda>_.
     io_bind (command L PrepareContext) (\<lambda>_.
     io_bind (tokenize L instruction_prefix True) (\<lambda>inp_pfx.
     io_bind (tokenize L response_suffix False) (\<lambda>inp_sfx.
     io_return (inp_pfx, inp_sfx)))))))))))"

text \<open>
  Lines 136 to 151. \<open>args.antiprompt\<close> is read whether or not the instruct branch has
  assigned it. The value is the arguments as they are now and \<open>is_interacting\<close>, which
  stays unbound (\<open>None\<close>) outside interactive mode.
\<close>

definition instruct_antiprompt :: string where
  "instruct_antiprompt = ''### Instruction:\<newline>\<newline>''"

definition interactive_banner :: string where
  "interactive_banner =
     ''== Running in interactive mode. =='' @ ''\<newline>'' @
     '' - Press Ctrl+C to interject at any time.'' @ ''\<newline>'' @
     '' - Press Return to return control to LLaMa.'' @ ''\<newline>'' @
     '' - If you want to submit another line, end your input in '' @
       [CHR 0x27, escape_char, CHR 0x27] @ ''.'' @ ''\<newline>''"

definition select_mode :: "llamacpp \<Rightarrow> namespace \<Rightarrow> (namespace \<times> bool option) io" where
  "select_mode L args =
     io_bind (io_of (getattr args ''instruct'')) (\<lambda>instruct.
     io_bind (io_return
                (if truthy instruct
                 then setattr (setattr args ''interactive'' (PyBool True))
                        ''antiprompt'' (PyStr instruct_antiprompt)
                 else args)) (\<lambda>args.
     io_bind (io_of (getattr args ''antiprompt'')) (\<lambda>antiprompt.
     io_bind (if truthy antiprompt
              then (case antiprompt of
                      PyStr a \<Rightarrow>
                        io_bind (command L (SetAntiprompt a)) (\<lambda>_.
                        io_return (setattr args ''interactive'' (PyBool True)))
                    | _ \<Rightarrow> io_raise TypeError)
              else io_return args) (\<lambda>args.
     io_bind (io_of (getattr args ''interactive'')) (\<lambda>interactive.
       if truthy interactive
       then io_bind (py_print interactive_banner ''\<newline>'') (\<lambda>_. io_return (args, Some True))
       else io_return (args, None))))))"

text \<open>
  What the loop only reads (the arguments and the two framings), and the local
  variables it assigns.
\<close>

record loop_env =
  args :: namespace
  inp_pfx :: "token list"
  inp_sfx :: "token list"

record loop_vars =
  is_interacting :: "bool option"
  input_noecho :: bool
  is_finished :: bool

text \<open>Lines 104 to 154: everything before the loop.\<close>

definition main_setup :: "llamacpp \<Rightarrow> namespace \<Rightarrow> (loop_env \<times> loop_vars) io" where
  "main_setup L args0 =
     io_bind (read_prompt args0) (\<lambda>args1.
     io_bind (start_model L args1) (\<lambda>(pfx, sfx).
     io_bind (select_mode L args1) (\<lambda>(args2, interacting).
     io_return (\<lparr>args = args2, inp_pfx = pfx, inp_sfx = sfx\<rparr>,
                \<lparr>is_interacting = interacting, input_noecho = False, is_finished = False\<rparr>))))"

text \<open>Lines 157 to 166: pending input is ingested, or else one piece of text is inferred.\<close>

definition generate :: "llamacpp \<Rightarrow> loop_vars \<Rightarrow> loop_vars io" where
  "generate L v =
     io_bind (invoke L HasUnconsumedInput (has_unconsumed_input_result L)) (\<lambda>pending.
       if pending
       then io_bind (command L (IngestAllPendingInput (\<not> input_noecho v))) (\<lambda>_. io_return v)
       else io_bind (invoke L InferText (infer_text_result L)) (\<lambda>(text, finished).
            io_bind (py_print text []) (\<lambda>_.
            io_return (v\<lparr>is_finished := finished, input_noecho := False\<rparr>))))"

text \<open>
  Lines 172 to 183, one turn of the user: in instruct mode the prefix is enqueued
  before the user's lines are read and the suffix after.
\<close>

definition user_turn :: "llamacpp \<Rightarrow> loop_env \<Rightarrow> loop_vars \<Rightarrow> loop_vars io" where
  "user_turn L env v =
     io_bind (io_of (getattr (args env) ''instruct'')) (\<lambda>instruct.
     io_bind (if truthy instruct
              then io_bind (command L (UpdateInputTokens (inp_pfx env))) (\<lambda>_.
                   py_print (''\<newline>'' @ ''> '') [])
              else io_return ()) (\<lambda>_.
     io_bind (process_interactive_input L) (\<lambda>_.
     io_bind (io_of (getattr (args env) ''instruct'')) (\<lambda>instruct.
     io_bind (if truthy instruct
              then command L (UpdateInputTokens (inp_sfx env))
              else io_return ()) (\<lambda>_.
     io_return (v\<lparr>input_noecho := True, is_interacting := Some False\<rparr>))))))"

text \<open>Lines 168 to 183.\<close>

definition interact :: "llamacpp \<Rightarrow> loop_env \<Rightarrow> loop_vars \<Rightarrow> loop_vars io" where
  "interact L env v =
     io_bind (io_of (getattr (args env) ''interactive'')) (\<lambda>interactive.
       if truthy interactive
       then io_bind (invoke L IsAntipromptPresent (is_antiprompt_present_result L)) (\<lambda>found.
            io_bind (io_return (if found then v\<lparr>is_interacting := Some True\<rparr> else v)) (\<lambda>v.
              case is_interacting v of
                None \<Rightarrow> io_raise (UnboundLocalError ''is_interacting'')
              | Some True \<Rightarrow> user_turn L env v
              | Some False \<Rightarrow> io_return v))
       else io_return v)"

text \<open>
  Lines 185 to 191: after the end of text, interactive mode waits for the user and
  batch mode prints the marker and leaves the loop.
\<close>

datatype 'a flow = Continue 'a | Break 'a | While_exit 'a

definition end_of_text_marker :: string where
  "end_of_text_marker = '' [end of text]''"

definition end_of_text :: "loop_env \<Rightarrow> loop_vars \<Rightarrow> loop_vars flow io" where
  "end_of_text env v =
     (if is_finished v
      then io_bind (io_of (getattr (args env) ''interactive'')) (\<lambda>interactive.
             if truthy interactive
             then io_return (Continue (v\<lparr>is_interacting := Some True\<rparr>))
             else io_bind (py_print end_of_text_marker ''\<newline>'') (\<lambda>_. io_return (Break v)))
      else io_return (Continue v))"

text \<open>Lines 193 to 195: \<open>model.is_finished()\<close> is asked in interactive mode only.\<close>

definition reset_budget :: "llamacpp \<Rightarrow> loop_env \<Rightarrow> loop_vars \<Rightarrow> loop_vars io" where
  "reset_budget L env v =
     io_bind (io_of (getattr (args env) ''interactive'')) (\<lambda>interactive.
       if truthy interactive
       then io_bind (invoke L IsFinished (is_finished_result L)) (\<lambda>finished.
              if finished
              then io_bind (command L ResetRemainingTokens) (\<lambda>_.
                   io_return (v\<lparr>is_interacting := Some True\<rparr>))
              else io_return v)
       else io_return v)"

text \<open>Lines 156 to 195: the test of the \<open>while\<close> and one run of its body.\<close>

definition loop_iteration :: "llamacpp \<Rightarrow> loop_env \<Rightarrow> loop_vars \<Rightarrow> loop_vars flow io" where
  "loop_iteration L env v =
     io_bind (invoke L IsFinished (is_finished_result L)) (\<lambda>finished.
       if finished then io_return (While_exit v)
       else io_bind (generate L v) (\<lambda>v.
            io_bind (interact L env v) (\<lambda>v.
            io_bind (end_of_text env v) (\<lambda>f.
              case f of
                Continue v \<Rightarrow> io_bind (reset_budget L env v) (\<lambda>v. io_return (Continue v))
              | _ \<Rightarrow> io_return f))))"

text \<open>
  The loop may run for ever (nothing bounds the number of iterations that read no
  input), so it is a partial function: \<open>None\<close> stands for a run that does not end.
  Otherwise the result tells how the loop was left: by an exception, by \<open>break\<close>
  after the end of text, or because \<open>model.is_finished()\<close> held at the \<open>while\<close>.
\<close>

datatype loop_exit = By_break | By_while

partial_function (option) main_loop ::
  "llamacpp \<Rightarrow> loop_env \<Rightarrow> loop_vars \<Rightarrow> world \<Rightarrow> ((exn + loop_exit) \<times> world) option" where
  "main_loop L env v w =
     (case loop_iteration L env v w of
        (Inl e, w') \<Rightarrow> Some (Inl e, w')
      | (Inr (Continue v'), w') \<Rightarrow> main_loop L env v' w'
      | (Inr (Break v'), w') \<Rightarrow> Some (Inr By_break, w')
      | (Inr (While_exit v'), w') \<Rightarrow> Some (Inr By_while, w'))"

declare main_loop.simps [code]

text \<open>Lines 101 to 197; \<open>main\<close> returns 0 however the loop was left.\<close>

definition main :: "llamacpp \<Rightarrow> namespace \<Rightarrow> world \<Rightarrow> ((exn + int) \<times> world) option" where
  "main L args0 w =
     (case main_setup L args0 w of
        (Inl e, w') \<Rightarrow> Some (Inl e, w')
      | (Inr (env, v), w') \<Rightarrow>
          (case main_loop L env v w' of
             None \<Rightarrow> None
           | Some (Inl e, w'') \<Rightarrow> Some (Inl e, w'')
           | Some (Inr _, w'') \<Rightarrow> Some (Inr 0, w'')))"

text \<open>Lines 200 to 203.\<close>

definition run :: "llamacpp \<Rightarrow> string list \<Rightarrow> world \<Rightarrow> ((exn + int) \<times> world) option" where
  "run L argv w =
     (case parse_args_into_params argv of
        Inl e \<Rightarrow> Some (Inl e, w)
      | Inr parsed \<Rightarrow> main L parsed w)"

section \<open>What the calls mean for the model's queue\<close>

text \<open>
  Modelled from the spec: the pending-input queue of \<open>PyLLAMA\<close> and its methods
  \<open>update_input\<close> and \<open>update_input_tokens\<close> are native code that is not among the
  sources. The spec says of the queue: "Appended to by: initial prompt tokenization,
  instruct prefix/suffix injection, interactive user input", and of \<open>enqueue\<close>:
  "appends to TokenQueue. No error conditions; always succeeds". So the tokens enqueued
  by a log of calls are, in order, the tokens of each \<open>update_input_tokens\<close> call and
  the tokenisation of the text of each \<open>update_input\<close> call; the tokeniser applied to
  user text is a parameter.
\<close>

fun enqueued :: "(string \<Rightarrow> token list) \<Rightarrow> llama_call list \<Rightarrow> token list" where
  "enqueued tk [] = []"
| "enqueued tk (UpdateInputTokens ts # cs) = ts @ enqueued tk cs"
| "enqueued tk (UpdateInput text # cs) = tk text @ enqueued tk cs"
| "enqueued tk (c # cs) = enqueued tk cs"

text \<open>The text of a physical line that reaches the model: without its trailing escape.\<close>

definition strip_escape :: "string \<Rightarrow> string" where
  "strip_escape line = (if ends_with_escape line then butlast line else line)"

text \<open>The calls a run has added to the log it started with.\<close>

definition new_calls :: "world \<Rightarrow> world \<Rightarrow> llama_call list" where
  "new_calls w w' = drop (length (llama_log w)) (llama_log w')"

section \<open>Concrete objects for running the definitions\<close>

text \<open>
  A context that samples the number of calls made so far and writes every token as
  \<open>x\<close>, a \<open>llamacpp\<close> whose calls never raise, that tokenises a text into its character
  codes, has no pending input, reports the end of text with every inferred piece and is
  finished between an inference and the next reset, and a world with nothing in it.
\<close>

definition counting_context :: llama_context where
  "counting_context =
     \<lparr>str_to_token = (\<lambda>text bos. (if bos then [1] else []) @ map (\<lambda>c. int (of_char c)) text),
      token_to_str = (\<lambda>t. ''x''),
      sample_top_p_top_k = (\<lambda>log. int (length log))\<rparr>"

definition demo_llama :: llamacpp where
  "demo_llama =
     \<lparr>raises = (\<lambda>log c. False),
      tokenize_result = (\<lambda>log text bos. (if bos then [1] else []) @ map (\<lambda>c. int (of_char c)) text),
      is_finished_result = (\<lambda>log. InferText \<in> set log \<and> ResetRemainingTokens \<notin> set log),
      has_unconsumed_input_result = (\<lambda>log. False),
      infer_text_result = (\<lambda>log. (''.'', True)),
      is_antiprompt_present_result = (\<lambda>log. False)\<rparr>"

definition empty_world :: world where
  "empty_world = \<lparr>files = [], stdin = [], stdout = [], llama_log = []\<rparr>"


section \<open>Auxiliary notions for the proofs\<close>

text \<open>What an argument stores in its attribute when it is met: a value of its type.\<close>

definition stored :: "argument \<Rightarrow> pyval \<Rightarrow> bool" where
  "stored a x =
     (case action a of
        Store_true \<Rightarrow> x = PyBool True
      | Store ty \<Rightarrow> (case ty of Str_type \<Rightarrow> (case x of PyStr _ \<Rightarrow> True | _ \<Rightarrow> False)
                              | Int_type \<Rightarrow> (case x of PyInt _ \<Rightarrow> True | _ \<Rightarrow> False)
                              | Float_type \<Rightarrow> (case x of PyFloat _ \<Rightarrow> True | _ \<Rightarrow> False)))"

text \<open>
  The loop of \<open>process_interactive_input\<close> as a recursion over the lines that wait on
  standard input.
\<close>

fun read_and_pass_lines :: "llamacpp \<Rightarrow> string list \<Rightarrow> unit io" where
  "read_and_pass_lines L [] = io_raise EOFError"
| "read_and_pass_lines L (line # rest) =
     (\<lambda>w. let w1 = w\<lparr>stdin := rest\<rparr>
          in if ends_with_escape line
             then io_bind (command L (UpdateInput (butlast line)))
                    (\<lambda>_. read_and_pass_lines L rest) w1
             else command L (UpdateInput line) w1)"

text \<open>The calls of lines 113 to 134, for the parameter values and the prompt given.\<close>

definition startup_calls :: "pyval list \<Rightarrow> string \<Rightarrow> llama_call list" where
  "startup_calls vals p =
     [Gpt_params vals, PyLLAMA_new, AddBos, UpdateInput p, PrintStartupStats, PrepareContext,
      Tokenize instruction_prefix True, Tokenize response_suffix False]"

text \<open>The arguments after lines 136 to 143 in instruct mode.\<close>

definition instruct_args :: "namespace \<Rightarrow> namespace" where
  "instruct_args a =
     setattr (setattr (setattr a ''interactive'' (PyBool True))
       ''antiprompt'' (PyStr instruct_antiprompt)) ''interactive'' (PyBool True)"


section \<open>Properties of the sampling loop\<close>

lemma consume_input_result:
  "consume_input embd_inp s =
     (if length embd_inp > n_consumed s
      then s\<lparr>embd := embd s @ drop (n_consumed s) embd_inp, n_consumed := length embd_inp\<rparr>
      else s)"
proof (induction embd_inp s rule: consume_input.induct)
  case (1 embd_inp s)
  show ?case
  proof (cases "length embd_inp > n_consumed s")
    case False
    then show ?thesis by (simp add: consume_input.simps [of embd_inp s])
  next
    case True
    let ?s' = "s\<lparr>embd := embd s @ [embd_inp ! n_consumed s], n_consumed := n_consumed s + 1\<rparr>"
    have step: "consume_input embd_inp s = consume_input embd_inp ?s'"
      using True by (simp add: consume_input.simps [of embd_inp s])
    have dr: "drop (n_consumed s) embd_inp
                = embd_inp ! n_consumed s # drop (Suc (n_consumed s)) embd_inp"
      using True by (simp add: Cons_nth_drop_Suc)
    show ?thesis
    proof (cases "length embd_inp > Suc (n_consumed s)")
      case True
      then show ?thesis using "1.IH" [OF \<open>length embd_inp > n_consumed s\<close>] step dr by simp
    next
      case False
      then have "drop (Suc (n_consumed s)) embd_inp = []" by simp
      moreover have "Suc (n_consumed s) = length embd_inp" using True False by simp
      ultimately show ?thesis
        using "1.IH" [OF \<open>length embd_inp > n_consumed s\<close>] step dr False True by simp
    qed
  qed
qed


lemma sampled_append: "sampled (es @ fs) = sampled es @ sampled fs"
  by (induction es rule: sampled.induct) simp_all







lemma loop_body_n_remain:
  "n_remain (loop_body C embd_inp s)
     = (if length embd_inp \<le> n_consumed s then n_remain s - 1 else n_remain s)"
  by (simp add: loop_body_def eval_pending_def sample_step_def Let_def consume_input_result)

lemma loop_body_n_consumed:
  "n_consumed (loop_body C embd_inp s) = max (n_consumed s) (length embd_inp)"
  by (simp add: loop_body_def eval_pending_def sample_step_def Let_def consume_input_result)

lemma loop_body_sampled:
  "sampled (ctx_log (loop_body C embd_inp s))
     = sampled (ctx_log s) @
       (if length embd_inp \<le> n_consumed s
        then [sample_top_p_top_k C (ctx_log (eval_pending s))] else [])"
  by (simp add: loop_body_def eval_pending_def sample_step_def Let_def consume_input_result
      sampled_append)

lemma eval_loop_sampling:
  "length embd_inp \<le> n_consumed s \<Longrightarrow> n_remain s = int m \<Longrightarrow>
   \<exists>s'. eval_loop C embd_inp s = Some s' \<and> n_remain s' = 0 \<and>
        length (sampled (ctx_log s')) = length (sampled (ctx_log s)) + m"
proof (induction m arbitrary: s)
  case 0
  then show ?case by (simp add: eval_loop.simps [of C embd_inp s])
next
  case (Suc m)
  let ?t = "loop_body C embd_inp s"
  have "length embd_inp \<le> n_consumed ?t" using Suc.prems by (simp add: loop_body_n_consumed)
  moreover have "n_remain ?t = int m" using Suc.prems by (simp add: loop_body_n_remain)
  ultimately obtain s' where s': "eval_loop C embd_inp ?t = Some s'" "n_remain s' = 0"
    "length (sampled (ctx_log s')) = length (sampled (ctx_log ?t)) + m"
    using Suc.IH by blast
  have "eval_loop C embd_inp s = eval_loop C embd_inp ?t"
    using Suc.prems by (simp add: eval_loop.simps [of C embd_inp s])
  then show ?case using s' Suc.prems by (simp add: loop_body_sampled)
qed

text \<open>
  C4. In the loop of \<open>test_eval\<close> an iteration that takes the sample branch (the prompt is
  consumed) lowers \<open>n_remain\<close> by exactly 1 and an iteration that takes the ingest branch
  leaves it as it is; and from any state with a budget that is not negative the loop
  ends, with the budget at 0, after exactly as many sample steps as the budget allowed
  (the test has no end-of-text exit, so never fewer).
\<close>

theorem budget_decreases_and_loop_ends:
  assumes "0 \<le> n_remain s"
  shows "n_remain (loop_body C embd_inp s)
           = (if length embd_inp \<le> n_consumed s then n_remain s - 1 else n_remain s)
       \<and> (\<exists>s'. eval_loop C embd_inp s = Some s' \<and> n_remain s' = 0 \<and>
               length (sampled (ctx_log s')) = length (sampled (ctx_log s)) + nat (n_remain s))"
proof (intro conjI)
  show "n_remain (loop_body C embd_inp s)
           = (if length embd_inp \<le> n_consumed s then n_remain s - 1 else n_remain s)"
    by (rule loop_body_n_remain)
next
  obtain m where m: "n_remain s = int m" using assms by (metis nat_0_le)
  show "\<exists>s'. eval_loop C embd_inp s = Some s' \<and> n_remain s' = 0 \<and>
               length (sampled (ctx_log s')) = length (sampled (ctx_log s)) + nat (n_remain s)"
  proof (cases "length embd_inp \<le> n_consumed s \<or> m = 0")
    case True
    then show ?thesis
    proof
      assume "length embd_inp \<le> n_consumed s"
      then show ?thesis using eval_loop_sampling [OF _ m] m by simp
    next
      assume "m = 0"
      then show ?thesis using m by (simp add: eval_loop.simps [of C embd_inp s])
    qed
  next
    case False
    let ?t = "loop_body C embd_inp s"
    have "length embd_inp \<le> n_consumed ?t" by (simp add: loop_body_n_consumed)
    moreover have "n_remain ?t = int m" using False m by (simp add: loop_body_n_remain)
    ultimately obtain s' where s': "eval_loop C embd_inp ?t = Some s'" "n_remain s' = 0"
      "length (sampled (ctx_log s')) = length (sampled (ctx_log ?t)) + m"
      using eval_loop_sampling by blast
    have "eval_loop C embd_inp s = eval_loop C embd_inp ?t"
      using False m by (simp add: eval_loop.simps [of C embd_inp s])
    then show ?thesis using s' False m by (simp add: loop_body_sampled)
  qed
qed

theorem budget_decreases_and_loop_ends_witness:
  "0 \<le> n_remain initial_state
   \<and> n_remain (loop_body counting_context [1, 2, 3] initial_state) = 8
   \<and> (\<exists>s'. eval_loop counting_context [1, 2, 3] initial_state = Some s' \<and> n_remain s' = 0 \<and>
           length (sampled (ctx_log s')) = 8)"
  using budget_decreases_and_loop_ends [of initial_state counting_context "[1, 2, 3]"]
  by (simp add: initial_state_def)

section \<open>Properties of the command line program\<close>

lemma find_argument_mem:
  "find_argument s = Some a \<Longrightarrow> a \<in> set parser_arguments \<and> s \<in> set (option_strings a)"
  by (auto simp: find_argument_def find_Some_iff)

lemma convert_stored: "action a = Store ty \<Longrightarrow> convert ty v = Some x \<Longrightarrow> stored a x"
  by (auto simp: stored_def convert_def split: arg_type.splits)

lemma parse_known_args_invariant:
  assumes "parse_known_args ns extras toks = Inr ns'" and "P ns" and "set toks \<subseteq> T"
    and step: "\<And>ns a x s. P ns \<Longrightarrow> a \<in> set parser_arguments \<Longrightarrow> s \<in> T \<Longrightarrow>
                 s \<in> set (option_strings a) \<Longrightarrow> stored a x \<Longrightarrow> P (setattr ns (dest a) x)"
  shows "P ns'"
  using assms(1-3)
proof (induction ns extras toks rule: parse_known_args.induct)
  case (1 ns extras)
  then show ?case by (simp split: if_splits)
next
  case (2 ns extras s rest)
  from "2.prems"(1) have nh: "\<not> (s = ''-h'' \<or> s = ''--help'')" by (auto split: if_splits)
  show ?case
  proof (cases "find_argument s")
    case None
    then show ?thesis using 2 nh by auto
  next
    case (Some a)
    note fa = find_argument_mem [OF Some]
    show ?thesis
    proof (cases "action a")
      case Store_true
      have "P (setattr ns (dest a) (PyBool True))"
        using step [OF "2.prems"(2), of a s "PyBool True"] fa "2.prems"(3) Store_true
        by (simp add: stored_def)
      then show ?thesis using "2.IH"(2) [OF nh Some Store_true] "2.prems" nh Some Store_true
        by auto
    next
      case (Store ty)
      from "2.prems"(1) nh Some Store obtain v rest' x where
        r: "rest = v # rest'" and nl: "\<not> looks_like_option v" and c: "convert ty v = Some x"
        and p: "parse_known_args (setattr ns (dest a) x) extras rest' = Inr ns'"
        by (auto split: list.splits if_splits option.splits)
      have "P (setattr ns (dest a) x)"
        using step [OF "2.prems"(2), of a s x] fa "2.prems"(3) convert_stored [OF Store c]
        by simp
      then show ?thesis
        using "2.IH"(3) [OF nh Some Store r nl c] p "2.prems"(3) r by auto
    qed
  qed
qed

lemma dest_parser_arguments:
  "map dest parser_arguments =
     [''interactive'', ''instruct'', ''reverse_prompt'', ''color'', ''seed'', ''threads'',
      ''prompt'', ''file'', ''n_predict'', ''top_k'', ''top_p'', ''repeat_last_n'',
      ''repeat_penalty'', ''ctx_size'', ''temp'', ''batch_size'', ''model'']"
  by (simp add: parser_arguments_def add_argument_def dest_def is_long_option_def)

lemma parser_table:
  "map (\<lambda>a. (dest a, option_strings a, action a)) parser_arguments =
     [(''interactive'', [''-i'', ''--interactive''], Store_true),
      (''instruct'', [''-ins'', ''--instruct''], Store_true),
      (''reverse_prompt'', [''-r'', ''--reverse-prompt''], Store Str_type),
      (''color'', [''--color''], Store_true),
      (''seed'', [''-s'', ''--seed''], Store Int_type),
      (''threads'', [''-t'', ''--threads''], Store Int_type),
      (''prompt'', [''-p'', ''--prompt''], Store Str_type),
      (''file'', [''-f'', ''--file''], Store Str_type),
      (''n_predict'', [''-n'', ''--n_predict''], Store Int_type),
      (''top_k'', [''--top_k''], Store Int_type),
      (''top_p'', [''--top_p''], Store Float_type),
      (''repeat_last_n'', [''--repeat_last_n''], Store Int_type),
      (''repeat_penalty'', [''--repeat_penalty''], Store Float_type),
      (''ctx_size'', [''-c'', ''--ctx_size''], Store Int_type),
      (''temp'', [''--temp''], Store Float_type),
      (''batch_size'', [''-b'', ''--batch_size''], Store Int_type),
      (''model'', [''-m'', ''--model''], Store Str_type)]"
  by (simp add: parser_arguments_def add_argument_def dest_def is_long_option_def)

lemma parser_table_mem:
  assumes "a \<in> set parser_arguments"
  shows "(dest a, option_strings a, action a)
           \<in> set (map (\<lambda>a. (dest a, option_strings a, action a)) parser_arguments)"
  using assms by (force) 

lemma default_namespace_value:
  "default_namespace =
     [(''interactive'', PyBool False), (''instruct'', PyBool False),
      (''reverse_prompt'', PyStr []), (''color'', PyBool False),
      (''seed'', PyInt (- 1)), (''threads'', PyInt 4), (''prompt'', PyNone),
      (''file'', PyStr []), (''n_predict'', PyInt 128), (''top_k'', PyInt 40),
      (''top_p'', PyFloat ''0.95''), (''repeat_last_n'', PyInt 64),
      (''repeat_penalty'', PyFloat ''1.30''), (''ctx_size'', PyInt 4096),
      (''temp'', PyFloat ''0.8''), (''batch_size'', PyInt 8),
      (''model'', PyStr ''./models/7B/ggml-model-q4_0.bin'')]"
  by (simp add: default_namespace_def parser_arguments_def add_argument_def dest_def
      is_long_option_def)

lemma parser_argument_cases:
  assumes "a \<in> set parser_arguments"
  shows "(dest a, option_strings a, action a) \<in>
     {(''interactive'', [''-i'', ''--interactive''], Store_true),
      (''instruct'', [''-ins'', ''--instruct''], Store_true),
      (''reverse_prompt'', [''-r'', ''--reverse-prompt''], Store Str_type),
      (''color'', [''--color''], Store_true),
      (''seed'', [''-s'', ''--seed''], Store Int_type),
      (''threads'', [''-t'', ''--threads''], Store Int_type),
      (''prompt'', [''-p'', ''--prompt''], Store Str_type),
      (''file'', [''-f'', ''--file''], Store Str_type),
      (''n_predict'', [''-n'', ''--n_predict''], Store Int_type),
      (''top_k'', [''--top_k''], Store Int_type),
      (''top_p'', [''--top_p''], Store Float_type),
      (''repeat_last_n'', [''--repeat_last_n''], Store Int_type),
      (''repeat_penalty'', [''--repeat_penalty''], Store Float_type),
      (''ctx_size'', [''-c'', ''--ctx_size''], Store Int_type),
      (''temp'', [''--temp''], Store Float_type),
      (''batch_size'', [''-b'', ''--batch_size''], Store Int_type),
      (''model'', [''-m'', ''--model''], Store Str_type)}"
  using parser_table_mem [OF assms] unfolding parser_table by simp

lemma dest_in_keys:
  assumes "a \<in> set parser_arguments"
  shows "dest a \<in> set (map fst default_namespace)"
  using parser_argument_cases [OF assms] unfolding default_namespace_value by auto

lemma parse_keeps_keys:
  assumes "parse_known_args default_namespace [] toks = Inr ns'"
  shows "map fst ns' = map fst default_namespace"
proof (rule parse_known_args_invariant [OF assms, where T = UNIV and P = "\<lambda>ns. map fst ns = map fst default_namespace"])
  fix ns :: namespace and a :: argument and x :: pyval and s :: string
  assume "map fst ns = map fst default_namespace" "a \<in> set parser_arguments"
  then show "map fst (setattr ns (dest a) x) = map fst default_namespace"
    using dest_in_keys [of a] by (simp add: setattr_def update_keys)
qed simp_all


lemma instruct_argument:
  assumes "a \<in> set parser_arguments" "dest a = ''instruct''"
  shows "option_strings a = [''-ins'', ''--instruct''] \<and> action a = Store_true"
  using parser_argument_cases [OF assms(1)] assms(2) by auto

lemma parse_instruct_sticky:
  assumes "parse_known_args ns extras toks = Inr ns'"
    and "map_of ns ''instruct'' = Some (PyBool True)"
  shows "map_of ns' ''instruct'' = Some (PyBool True)"
proof (rule parse_known_args_invariant [OF assms(1), where T = UNIV and P = "\<lambda>n. map_of n ''instruct'' = Some (PyBool True)"])
  fix n :: namespace and a :: argument and x :: pyval and s :: string
  assume h: "map_of n ''instruct'' = Some (PyBool True)" "a \<in> set parser_arguments" "stored a x"
  show "map_of (setattr n (dest a) x) ''instruct'' = Some (PyBool True)"
  proof (cases "dest a = ''instruct''")
    case True
    then have "x = PyBool True" using instruct_argument [OF h(2) True] h(3) by (simp add: stored_def)
    then show ?thesis using True by (simp add: setattr_def update_conv')
  next
    case False
    then show ?thesis using h(1) by (simp add: setattr_def update_conv')
  qed
qed (simp_all add: assms(2))

lemma find_instruct:
  "find_argument ''--instruct'' = Some (add_argument [''-ins'', ''--instruct''] Store_true (PyBool False))"
  "find_argument ''-ins'' = Some (add_argument [''-ins'', ''--instruct''] Store_true (PyBool False))"
  by (simp_all add: find_argument_def parser_arguments_def add_argument_def)

lemma instruct_looks_like_option:
  "looks_like_option ''--instruct''" "looks_like_option ''-ins''"
  by (simp_all add: looks_like_option_def negative_number_def all_digits_def digit_of_def)

lemma parse_instruct_present:
  assumes "parse_known_args ns extras toks = Inr ns'"
    and "''--instruct'' \<in> set toks \<or> ''-ins'' \<in> set toks"
  shows "map_of ns' ''instruct'' = Some (PyBool True)"
  using assms
proof (induction ns extras toks rule: parse_known_args.induct)
  case (1 ns extras)
  then show ?case by simp
next
  case (2 ns extras s rest)
  from "2.prems"(1) have nh: "\<not> (s = ''-h'' \<or> s = ''--help'')" by (auto split: if_splits)
  show ?case
  proof (cases "s = ''--instruct'' \<or> s = ''-ins''")
    case True
    then have "parse_known_args (setattr ns ''instruct'' (PyBool True)) extras rest = Inr ns'"
      using "2.prems"(1) find_instruct
      by (auto simp: add_argument_def dest_def is_long_option_def)
    moreover have "map_of (setattr ns ''instruct'' (PyBool True)) ''instruct'' = Some (PyBool True)"
      by (simp add: setattr_def update_conv')
    ultimately show ?thesis by (rule parse_instruct_sticky)
  next
    case False
    then have inrest: "''--instruct'' \<in> set rest \<or> ''-ins'' \<in> set rest"
      using "2.prems"(2) by auto
    show ?thesis
    proof (cases "find_argument s")
      case None
      then show ?thesis using "2.IH"(1) [OF nh None] "2.prems"(1) nh inrest by simp
    next
      case (Some a)
      show ?thesis
      proof (cases "action a")
        case Store_true
        then show ?thesis
          using "2.IH"(2) [OF nh Some Store_true] "2.prems"(1) nh Some inrest by simp
      next
        case (Store ty)
        from "2.prems"(1) nh Some Store obtain v rest' x where
          r: "rest = v # rest'" and nl: "\<not> looks_like_option v" and c: "convert ty v = Some x"
          and p: "parse_known_args (setattr ns (dest a) x) extras rest' = Inr ns'"
          by (auto split: list.splits if_splits option.splits)
        have "v \<noteq> ''--instruct''" "v \<noteq> ''-ins''"
          using nl instruct_looks_like_option by auto
        then have "''--instruct'' \<in> set rest' \<or> ''-ins'' \<in> set rest'"
          using inrest r by auto
        then show ?thesis using "2.IH"(3) [OF nh Some Store r nl c] p by simp
      qed
    qed
  qed
qed

lemma parse_file_is_str:
  assumes "parse_known_args ns extras toks = Inr ns'"
    and "\<exists>p. map_of ns ''file'' = Some (PyStr p)"
  shows "\<exists>p. map_of ns' ''file'' = Some (PyStr p)"
proof (rule parse_known_args_invariant [OF assms(1), where T = UNIV and P = "\<lambda>n. \<exists>p. map_of n ''file'' = Some (PyStr p)"])
  fix n :: namespace and a :: argument and x :: pyval and s :: string
  assume h: "\<exists>p. map_of n ''file'' = Some (PyStr p)" "a \<in> set parser_arguments" "stored a x"
  show "\<exists>p. map_of (setattr n (dest a) x) ''file'' = Some (PyStr p)"
  proof (cases "dest a = ''file''")
    case True
    then have "action a = Store Str_type" using parser_argument_cases [OF h(2)] by auto
    then have "\<exists>p. x = PyStr p" using h(3) by (auto simp: stored_def split: pyval.splits)
    then show ?thesis using True by (auto simp add: setattr_def update_conv')
  next
    case False
    then show ?thesis using h(1) by (simp add: setattr_def update_conv')
  qed
qed (simp_all add: assms(2))

lemma parse_prompt_is_str_or_none:
  assumes "parse_known_args ns extras toks = Inr ns'"
    and "map_of ns ''prompt'' = Some PyNone \<or> (\<exists>p. map_of ns ''prompt'' = Some (PyStr p))"
  shows "map_of ns' ''prompt'' = Some PyNone \<or> (\<exists>p. map_of ns' ''prompt'' = Some (PyStr p))"
proof (rule parse_known_args_invariant [OF assms(1), where T = UNIV and P = "\<lambda>n. map_of n ''prompt'' = Some PyNone \<or> (\<exists>p. map_of n ''prompt'' = Some (PyStr p))"])
  fix n :: namespace and a :: argument and x :: pyval and s :: string
  assume h: "map_of n ''prompt'' = Some PyNone \<or> (\<exists>p. map_of n ''prompt'' = Some (PyStr p))"
    "a \<in> set parser_arguments" "stored a x"
  show "map_of (setattr n (dest a) x) ''prompt'' = Some PyNone \<or>
        (\<exists>p. map_of (setattr n (dest a) x) ''prompt'' = Some (PyStr p))"
  proof (cases "dest a = ''prompt''")
    case True
    then have "action a = Store Str_type" using parser_argument_cases [OF h(2)] by auto
    then have "\<exists>p. x = PyStr p" using h(3) by (auto simp: stored_def split: pyval.splits)
    then show ?thesis using True by (auto simp add: setattr_def update_conv')
  next
    case False
    then show ?thesis using h(1) by (simp add: setattr_def update_conv')
  qed
qed (simp_all add: assms(2))

lemmas io_defs = io_bind_def io_return_def io_raise_def io_of_def invoke_def command_def
  py_print_def tokenize_def read_file_def

lemma read_prompt_eq:
  "read_prompt a w =
     (case getattr a ''file'' of
        Inl e \<Rightarrow> (Inl e, w)
      | Inr f \<Rightarrow>
          if truthy f
          then (case f of
                  PyStr path \<Rightarrow>
                    (case map_of (files w) path of
                       None \<Rightarrow> (Inl OSError, w)
                     | Some c \<Rightarrow> (Inr (setattr (setattr a ''prompt'' (PyStr (py_strip c)))
                                         ''prompt'' (PyStr ('' '' @ py_strip c))), w))
                | _ \<Rightarrow> (Inl TypeError, w))
          else (case getattr a ''prompt'' of
                  Inl e \<Rightarrow> (Inl e, w)
                | Inr (PyStr p) \<Rightarrow> (Inr (setattr a ''prompt'' (PyStr ('' '' @ p))), w)
                | Inr _ \<Rightarrow> (Inl TypeError, w)))"
  by (simp add: read_prompt_def io_defs getattr_def setattr_def update_conv'
      split: sum.splits pyval.splits option.splits)

lemma start_model_result:
  assumes "getattrs a gpt_params_attributes = Inr vals"
    and "getattr a ''prompt'' = Inr (PyStr p)"
    and "start_model L a w = (r, w')"
  shows "llama_log w' = llama_log w @ new_calls w w' \<and>
         files w' = files w \<and> stdin w' = stdin w \<and> stdout w' = stdout w \<and>
         set (new_calls w w') \<subseteq> set (startup_calls vals p) \<and>
         (r = Inl LlamaError \<or>
          (new_calls w w' = startup_calls vals p \<and>
           r = Inr (tokenize_result L (llama_log w @ take 6 (startup_calls vals p)) instruction_prefix True,
                    tokenize_result L (llama_log w @ take 7 (startup_calls vals p)) response_suffix False)))"
  using assms(3) unfolding start_model_def startup_calls_def new_calls_def
  by (auto simp: io_defs assms(1,2) split: if_splits)

lemma read_prompt_world: "read_prompt a w = (r, w') \<Longrightarrow> w' = w"
  by (auto simp: read_prompt_eq split: sum.splits pyval.splits option.splits if_splits)


lemma read_prompt_Inr:
  assumes "read_prompt a w = (Inr a1, w')"
  shows "(\<exists>p. map_of a1 ''prompt'' = Some (PyStr ('' '' @ p))) \<and>
         (\<forall>k. k \<noteq> ''prompt'' \<longrightarrow> map_of a1 k = map_of a k)"
  using assms
  by (auto simp: read_prompt_eq getattr_def setattr_def update_conv'
      split: sum.splits pyval.splits option.splits if_splits)

lemma getattrs_ok:
  "list_all (\<lambda>n. map_of ns n \<noteq> None) names \<Longrightarrow> \<exists>vals. getattrs ns names = Inr vals"
proof (induction names)
  case Nil
  then show ?case by simp
next
  case (Cons n names)
  then obtain vals where "getattrs ns names = Inr vals" by auto
  moreover obtain v where "map_of ns n = Some v"
    using Cons.prems by (cases "map_of ns n") auto
  ultimately show ?case by (simp add: getattr_def)
qed


lemma instruct_antiprompt_value:
  "instruct_antiprompt = ''### Instruction:\<newline>\<newline>''" "instruct_antiprompt \<noteq> []"
  by (simp_all add: instruct_antiprompt_def)

lemma select_mode_instruct:
  assumes "getattr a ''instruct'' = Inr i" "truthy i"
  shows "select_mode L a w =
           (if raises L (llama_log w) (SetAntiprompt instruct_antiprompt)
            then (Inl LlamaError, w)
            else (Inr (instruct_args a, Some True),
                  w\<lparr>llama_log := llama_log w @ [SetAntiprompt instruct_antiprompt],
                    stdout := stdout w @ interactive_banner @ ''\<newline>''\<rparr>))"
  using assms instruct_antiprompt_value(2)
  by (simp add: select_mode_def io_defs getattr_def setattr_def update_conv' instruct_args_def)


lemma main_setup_eq:
  "main_setup L a0 w =
     (case read_prompt a0 w of
        (Inl e, w1) \<Rightarrow> (Inl e, w1)
      | (Inr a1, w1) \<Rightarrow>
          (case start_model L a1 w1 of
             (Inl e, w2) \<Rightarrow> (Inl e, w2)
           | (Inr (pfx, sfx), w2) \<Rightarrow>
               (case select_mode L a1 w2 of
                  (Inl e, w3) \<Rightarrow> (Inl e, w3)
                | (Inr (a2, interacting), w3) \<Rightarrow>
                    (Inr (\<lparr>args = a2, inp_pfx = pfx, inp_sfx = sfx\<rparr>,
                          \<lparr>is_interacting = interacting, input_noecho = False,
                           is_finished = False\<rparr>), w3))))"
  by (simp add: main_setup_def io_bind_def io_return_def split: prod.splits sum.splits)

lemma parsed_namespace:
  assumes "parse_args_into_params argv = Inr parsed"
  shows "map fst parsed = map fst default_namespace"
    and "\<exists>f. map_of parsed ''file'' = Some (PyStr f)"
    and "map_of parsed ''prompt'' = Some PyNone \<or> (\<exists>p. map_of parsed ''prompt'' = Some (PyStr p))"
proof -
  have p: "parse_known_args default_namespace [] (drop 1 argv) = Inr parsed"
    using assms by (simp add: parse_args_into_params_def)
  show "map fst parsed = map fst default_namespace" by (rule parse_keeps_keys [OF p])
  show "\<exists>f. map_of parsed ''file'' = Some (PyStr f)"
    by (rule parse_file_is_str [OF p]) (simp add: default_namespace_value)
  show "map_of parsed ''prompt'' = Some PyNone \<or> (\<exists>p. map_of parsed ''prompt'' = Some (PyStr p))"
    by (rule parse_prompt_is_str_or_none [OF p]) (simp add: default_namespace_value)
qed

lemma parsed_has_attribute:
  assumes "parse_args_into_params argv = Inr parsed"
    and "n \<in> set (map fst default_namespace)"
  shows "map_of parsed n \<noteq> None"
  using parsed_namespace(1) [OF assms(1)] assms(2)
  by (metis map_of_eq_None_iff set_map)

lemma parsed_no_antiprompt:
  assumes "parse_args_into_params argv = Inr parsed"
  shows "map_of parsed ''antiprompt'' = None"
proof -
  have "''antiprompt'' \<notin> set (map fst parsed)"
    unfolding parsed_namespace(1) [OF assms] default_namespace_value by simp
  then show ?thesis by (simp add: map_of_eq_None_iff)
qed

lemma after_read_prompt:
  assumes "parse_args_into_params argv = Inr parsed"
    and "read_prompt parsed w = (Inr a1, w1)"
  shows "w1 = w"
    and "\<exists>vals. getattrs a1 gpt_params_attributes = Inr vals"
    and "\<exists>p. getattr a1 ''prompt'' = Inr (PyStr ('' '' @ p))"
    and "map_of a1 ''antiprompt'' = None"
    and "getattr a1 ''instruct'' = getattr parsed ''instruct''"
proof -
  note r = read_prompt_Inr [OF assms(2)]
  show "w1 = w" by (rule read_prompt_world [OF assms(2)])
  have "list_all (\<lambda>n. map_of a1 n \<noteq> None) gpt_params_attributes"
    using r parsed_has_attribute [OF assms(1)]
    by (simp add: gpt_params_attributes_def default_namespace_value)
  then show "\<exists>vals. getattrs a1 gpt_params_attributes = Inr vals" by (rule getattrs_ok)
  show "\<exists>p. getattr a1 ''prompt'' = Inr (PyStr ('' '' @ p))"
    using r by (auto simp: getattr_def)
  show "map_of a1 ''antiprompt'' = None" using r parsed_no_antiprompt [OF assms(1)] by simp
  show "getattr a1 ''instruct'' = getattr parsed ''instruct''" using r by (simp add: getattr_def)
qed







text \<open>
  C1. The code at the input \<open>--prompt Hello --reverse-prompt User:\<close>: the claim asks
  for \<open>set_antiprompt("User:")\<close> and interactive mode, and \<open>main\<close> raises
  \<open>AttributeError\<close> when it reads \<open>args.antiprompt\<close>, after the start-up calls and
  without any \<open>set_antiprompt\<close> call.
\<close>

theorem reverse_prompt_run_raises_attribute_error:
  "run demo_llama [''llamacpp-cli'', ''--prompt'', ''Hello'', ''--reverse-prompt'', ''User:'']
     empty_world
   = Some (Inl (AttributeError ''antiprompt''),
       empty_world\<lparr>llama_log :=
         [Gpt_params [PyStr ''./models/7B/ggml-model-q4_0.bin'', PyInt 4096, PyInt 128,
            PyInt 40, PyFloat ''0.95'', PyFloat ''0.8'', PyFloat ''1.30'', PyInt (- 1),
            PyInt 4, PyInt 64, PyInt 8],
          PyLLAMA_new, AddBos, UpdateInput '' Hello'', PrintStartupStats, PrepareContext,
          Tokenize instruction_prefix True, Tokenize response_suffix False]\<rparr>)"
proof -
  let ?parsed = "AList.update ''reverse_prompt'' (PyStr ''User:'')
                   (AList.update ''prompt'' (PyStr ''Hello'') default_namespace)"
  have parse: "parse_args_into_params
                 [''llamacpp-cli'', ''--prompt'', ''Hello'', ''--reverse-prompt'', ''User:'']
               = Inr ?parsed"
    by code_simp
  have "main_setup demo_llama ?parsed empty_world
        = (Inl (AttributeError ''antiprompt''),
       empty_world\<lparr>llama_log :=
         [Gpt_params [PyStr ''./models/7B/ggml-model-q4_0.bin'', PyInt 4096, PyInt 128,
            PyInt 40, PyFloat ''0.95'', PyFloat ''0.8'', PyFloat ''1.30'', PyInt (- 1),
            PyInt 4, PyInt 64, PyInt 8],
          PyLLAMA_new, AddBos, UpdateInput '' Hello'', PrintStartupStats, PrepareContext,
          Tokenize instruction_prefix True, Tokenize response_suffix False]\<rparr>)"
    by (simp add: main_setup_eq read_prompt_eq getattr_def setattr_def default_namespace_value
        start_model_def select_mode_def io_defs gpt_params_attributes_def demo_llama_def
        empty_world_def)
  then show ?thesis
    using parse by (simp add: run_def main_def)
qed

lemma start_model_Inl_raises:
  assumes "getattrs a gpt_params_attributes = Inr vals"
    and "getattr a ''prompt'' = Inr (PyStr p)"
    and "start_model L a w = (Inl e, w')"
  shows "\<exists>log c. raises L log c"
  using assms(3) unfolding start_model_def
  by (auto simp: io_defs assms(1,2) split: if_splits)





lemma new_calls_snoc:
  assumes "llama_log w2 = llama_log w1 @ new_calls w1 w2"
    and "llama_log w3 = llama_log w2 @ cs"
  shows "new_calls w1 w3 = new_calls w1 w2 @ cs"
proof -
  have "llama_log w3 = llama_log w1 @ (new_calls w1 w2 @ cs)"
    using assms by simp
  then show ?thesis unfolding new_calls_def [of w1 w3] by simp
qed

lemma new_calls_same [simp]: "new_calls w w = []"
  by (simp add: new_calls_def)










lemma main_setup_instruct:
  assumes parse: "parse_args_into_params argv = Inr parsed"
    and instr: "map_of parsed ''instruct'' = Some (PyBool True)"
  shows "(\<forall>env v w'. main_setup L parsed w = (Inr (env, v), w') \<longrightarrow>
            getattr (args env) ''interactive'' = Inr (PyBool True) \<and>
            getattr (args env) ''antiprompt'' = Inr (PyStr instruct_antiprompt) \<and>
            SetAntiprompt instruct_antiprompt \<in> set (new_calls w w') \<and>
            is_interacting v = Some True)
       \<and> ((\<exists>a1. read_prompt parsed w = (Inr a1, w)) \<and> (\<forall>log c. \<not> raises L log c)
            \<longrightarrow> (\<exists>env v w'. main_setup L parsed w = (Inr (env, v), w')))"
proof (cases "read_prompt parsed w")
  case (Pair r1 w1)
  have w1: "w1 = w" using Pair by (rule read_prompt_world)
  show ?thesis
  proof (cases r1)
    case (Inl e)
    then show ?thesis using Pair w1 by (simp add: main_setup_eq)
  next
    case (Inr a1)
    note a = after_read_prompt [OF parse Pair [unfolded Inr]]
    obtain vals p where vals: "getattrs a1 gpt_params_attributes = Inr vals"
      and p: "getattr a1 ''prompt'' = Inr (PyStr ('' '' @ p))"
      using a(2,3) by blast
    have i: "getattr a1 ''instruct'' = Inr (PyBool True)"
      using a(5) instr by (simp add: getattr_def)
    obtain r2 w2 where sm: "start_model L a1 w = (r2, w2)" by (cases "start_model L a1 w")
    note s = start_model_result [OF vals p sm]
    show ?thesis
    proof (cases r2)
      case (Inl e)
      then show ?thesis
        using Pair \<open>r1 = Inr a1\<close> w1 sm start_model_Inl_raises [OF vals p sm [unfolded Inl]]
        by (auto simp: main_setup_eq)
    next
      case (Inr t)
      obtain pfx sfx where t: "t = (pfx, sfx)" by (cases t)
      note sel = select_mode_instruct [OF i, of L w2, simplified]
      have ga: "getattr (instruct_args a1) ''interactive'' = Inr (PyBool True)"
        "getattr (instruct_args a1) ''antiprompt'' = Inr (PyStr instruct_antiprompt)"
        by (simp_all add: instruct_args_def getattr_def setattr_def update_conv')
      have nc: "new_calls w (w2\<lparr>llama_log := llama_log w2 @ [SetAntiprompt instruct_antiprompt],
                  stdout := stdout w2 @ interactive_banner @ ''\<newline>''\<rparr>)
                = new_calls w w2 @ [SetAntiprompt instruct_antiprompt]"
        using s by (intro new_calls_snoc) simp_all
      show ?thesis
        using Pair \<open>r1 = Inr a1\<close> w1 sm Inr t sel ga nc
        by (auto simp: main_setup_eq)
    qed
  qed
qed


text \<open>
  C7. For an argument list that parses and contains \<open>--instruct\<close> (or \<open>-ins\<close>): the
  fixed antiprompt is the string \<open>"### Instruction:\n\n"\<close>; whenever the set-up of
  \<open>main\<close> completes, \<open>args.interactive\<close> is \<open>True\<close>, \<open>args.antiprompt\<close> is that
  string, \<open>set_antiprompt\<close> has been called with it, and the loop starts in the
  awaiting-input state; and the set-up does complete when a prompt can be read and no
  call into \<open>llamacpp\<close> raises.
\<close>

theorem instruct_enables_interactive_and_antiprompt:
  assumes "parse_args_into_params argv = Inr parsed"
    and "''--instruct'' \<in> set (drop 1 argv) \<or> ''-ins'' \<in> set (drop 1 argv)"
  shows "instruct_antiprompt = ''### Instruction:\<newline>\<newline>''
       \<and> (\<forall>env v w'. main_setup L parsed w = (Inr (env, v), w') \<longrightarrow>
            getattr (args env) ''interactive'' = Inr (PyBool True) \<and>
            getattr (args env) ''antiprompt'' = Inr (PyStr instruct_antiprompt) \<and>
            SetAntiprompt instruct_antiprompt \<in> set (new_calls w w') \<and>
            is_interacting v = Some True)
       \<and> ((\<exists>a1. read_prompt parsed w = (Inr a1, w)) \<and> (\<forall>log c. \<not> raises L log c)
            \<longrightarrow> (\<exists>env v w'. main_setup L parsed w = (Inr (env, v), w')))"
proof -
  have p: "parse_known_args default_namespace [] (drop 1 argv) = Inr parsed"
    using assms(1) by (simp add: parse_args_into_params_def)
  have i: "map_of parsed ''instruct'' = Some (PyBool True)"
    by (rule parse_instruct_present [OF p assms(2)])
  show ?thesis
    using main_setup_instruct [OF assms(1) i, of L w] instruct_antiprompt_value(1) by blast
qed

text \<open>The run \<open>--instruct -p Hi\<close>.\<close>

theorem instruct_enables_interactive_and_antiprompt_witness:
  "\<exists>env v w'.
     main_setup demo_llama
       (AList.update ''prompt'' (PyStr ''Hi'')
          (AList.update ''instruct'' (PyBool True) default_namespace)) empty_world
       = (Inr (env, v), w') \<and>
     getattr (args env) ''interactive'' = Inr (PyBool True) \<and>
     getattr (args env) ''antiprompt'' = Inr (PyStr ''### Instruction:\<newline>\<newline>'') \<and>
     SetAntiprompt ''### Instruction:\<newline>\<newline>'' \<in> set (new_calls empty_world w') \<and>
     is_interacting v = Some True"
proof -
  let ?a = "AList.update ''prompt'' (PyStr ''Hi'')
              (AList.update ''instruct'' (PyBool True) default_namespace)"
  have parse: "parse_args_into_params [''llamacpp-cli'', ''--instruct'', ''-p'', ''Hi''] = Inr ?a"
    by code_simp
  have tok: "''--instruct'' \<in> set (drop 1 [''llamacpp-cli'', ''--instruct'', ''-p'', ''Hi''])
             \<or> ''-ins'' \<in> set (drop 1 [''llamacpp-cli'', ''--instruct'', ''-p'', ''Hi''])"
    by simp
  have rp: "\<exists>a1. read_prompt ?a empty_world = (Inr a1, empty_world)"
    by (simp add: read_prompt_eq getattr_def default_namespace_value)
  have nr: "\<forall>log c. \<not> raises demo_llama log c"
    by (simp add: demo_llama_def)
  note t = instruct_enables_interactive_and_antiprompt [OF parse tok, of demo_llama empty_world]
  obtain env v w' where m: "main_setup demo_llama ?a empty_world = (Inr (env, v), w')"
    using t rp nr by blast
  show ?thesis using t m by (metis (no_types, lifting))
qed

lemma process_interactive_input_eq:
  "process_interactive_input L w = read_and_pass_lines L (stdin w) w"
proof (induction L w rule: process_interactive_input.induct)
  case (1 L w)
  show ?case
  proof (cases "stdin w")
    case Nil
    then show ?thesis
      by (simp add: process_interactive_input.simps [of L w] py_input_def io_raise_def)
  next
    case (Cons line rest)
    let ?w1 = "w\<lparr>stdin := rest\<rparr>"
    have inp: "py_input w = (Inr line, ?w1)" using Cons by (simp add: py_input_def)
    show ?thesis
    proof (cases "ends_with_escape line")
      case False
      then show ?thesis
        using Cons inp by (simp add: process_interactive_input.simps [of L w])
    next
      case True
      obtain r w2 where c: "command L (UpdateInput (butlast line)) ?w1 = (r, w2)"
        by (cases "command L (UpdateInput (butlast line)) ?w1")
      show ?thesis
      proof (cases r)
        case (Inl e)
        then show ?thesis
          using Cons inp True c
          by (simp add: process_interactive_input.simps [of L w] io_bind_def)
      next
        case (Inr u)
        have st: "stdin w2 = rest"
          using c Inr by (auto simp: command_def invoke_def split: if_splits)
        have "process_interactive_input L w2 = read_and_pass_lines L (stdin w2) w2"
          using "1.IH" [OF inp [symmetric] refl True c [unfolded Inr, symmetric] refl] .
        then show ?thesis
          using Cons inp True c Inr st
          by (simp add: process_interactive_input.simps [of L w] io_bind_def)
      qed
    qed
  qed
qed

lemma read_and_pass_lines_complete:
  assumes "\<forall>log s. \<not> raises L log (UpdateInput s)"
    and "list_all ends_with_escape init" and "\<not> ends_with_escape final"
  shows "read_and_pass_lines L (init @ final # rest) w
           = (Inr (), w\<lparr>stdin := rest,
                        llama_log := llama_log w @ map UpdateInput (map butlast init @ [final])\<rparr>)"
  using assms(2)
proof (induction init arbitrary: w)
  case Nil
  then show ?case using assms(1,3) by (simp add: io_defs)
next
  case (Cons l init)
  then show ?case using assms(1) by (simp add: io_defs)
qed

lemma read_and_pass_lines_Inr:
  assumes "read_and_pass_lines L ls w = (Inr u, w')"
  shows "\<exists>lines. lines \<noteq> [] \<and> ls = lines @ stdin w' \<and>
           list_all ends_with_escape (butlast lines) \<and> \<not> ends_with_escape (last lines) \<and>
           w' = w\<lparr>stdin := stdin w',
                  llama_log := llama_log w @ map (\<lambda>l. UpdateInput (strip_escape l)) lines\<rparr>"
  using assms
proof (induction ls arbitrary: w)
  case Nil
  then show ?case by (simp add: io_defs)
next
  case (Cons l ls)
  show ?case
  proof (cases "ends_with_escape l")
    case False
    then have "w' = w\<lparr>stdin := ls, llama_log := llama_log w @ [UpdateInput l]\<rparr>"
      using Cons.prems by (auto simp: io_defs Let_def split: if_splits)
    then show ?thesis
      using False by (intro exI [of _ "[l]"]) (simp add: strip_escape_def)
  next
    case True
    let ?w1 = "w\<lparr>stdin := ls, llama_log := llama_log w @ [UpdateInput (butlast l)]\<rparr>"
    have "read_and_pass_lines L ls ?w1 = (Inr u, w')"
      using Cons.prems True by (auto simp: io_defs Let_def split: if_splits)
    then obtain lines where l: "lines \<noteq> []" "ls = lines @ stdin w'"
      "list_all ends_with_escape (butlast lines)" "\<not> ends_with_escape (last lines)"
      "w' = ?w1\<lparr>stdin := stdin w',
                  llama_log := llama_log ?w1 @ map (\<lambda>l. UpdateInput (strip_escape l)) lines\<rparr>"
      using Cons.IH by blast
    show ?thesis
      using l True by (intro exI [of _ "l # lines"]) (simp add: strip_escape_def)
  qed
qed

text \<open>
  C6, as amended. When the lines waiting on standard input start with lines that all end
  with the escape character, followed by a line that does not, and \<open>update_input\<close> does
  not raise, \<open>process_interactive_input\<close> reads exactly these lines and stops at the
  first one without the trailing escape (the lines after it stay on the input); every
  physical line, without its one trailing escape character, is passed to the model by an
  \<open>update_input\<close> call of its own, in order. The lines are not joined into one input.
\<close>

theorem each_physical_line_is_passed_on_its_own:
  assumes "stdin w = init @ final # rest"
    and "list_all ends_with_escape init" and "\<not> ends_with_escape final"
    and "\<forall>log s. \<not> raises L log (UpdateInput s)"
  shows "process_interactive_input L w
           = (Inr (), w\<lparr>stdin := rest,
                        llama_log := llama_log w @ map UpdateInput (map butlast init @ [final])\<rparr>)"
  using read_and_pass_lines_complete [OF assms(4,2,3), of rest w] assms(1)
  by (simp add: process_interactive_input_eq)

text \<open>Two continued lines, a last line, and a line that is left on the input.\<close>

theorem each_physical_line_is_passed_on_its_own_witness:
  "process_interactive_input demo_llama
     (empty_world\<lparr>stdin := [''one'' @ [escape_char], ''two'' @ [escape_char], ''three'', ''next'']\<rparr>)
   = (Inr (), empty_world\<lparr>stdin := [''next''],
        llama_log := [UpdateInput ''one'', UpdateInput ''two'', UpdateInput ''three'']\<rparr>)"
proof -
  let ?w = "empty_world\<lparr>stdin := [''one'' @ [escape_char], ''two'' @ [escape_char], ''three'', ''next'']\<rparr>"
  have 1: "stdin ?w = [''one'' @ [escape_char], ''two'' @ [escape_char]] @ ''three'' # [''next'']"
    by simp
  have 2: "list_all ends_with_escape [''one'' @ [escape_char], ''two'' @ [escape_char]]"
    by (simp add: ends_with_escape_def)
  have 3: "\<not> ends_with_escape ''three''"
    by (simp add: ends_with_escape_def escape_char_def)
  have 4: "\<forall>log s. \<not> raises demo_llama log (UpdateInput s)"
    by (simp add: demo_llama_def)
  show ?thesis
    using each_physical_line_is_passed_on_its_own [OF 1 2 3 4]
    by (simp add: empty_world_def)
qed

text \<open>
  C6 as stated fails on the two physical lines \<open>ab\<close> with a trailing escape
  character and \<open>cd\<close>: the model receives
  the two inputs \<open>ab\<close> and \<open>cd\<close>, not the single input \<open>abcd\<close>, and a tokeniser
  that does not distribute over concatenation (here: one token per text) enqueues
  different tokens for the two.
\<close>

theorem continued_lines_are_not_one_input:
  "process_interactive_input demo_llama (empty_world\<lparr>stdin := [''ab'' @ [escape_char], ''cd'']\<rparr>)
     = (Inr (), empty_world\<lparr>stdin := [], llama_log := [UpdateInput ''ab'', UpdateInput ''cd'']\<rparr>)
   \<and> [UpdateInput ''ab'', UpdateInput ''cd''] \<noteq> [UpdateInput ''abcd'']
   \<and> enqueued (\<lambda>text. [int (length text)]) [UpdateInput ''ab'', UpdateInput ''cd'']
        \<noteq> enqueued (\<lambda>text. [int (length text)]) [UpdateInput ''abcd'']"
proof -
  have "read_and_pass_lines demo_llama ([''ab'' @ [escape_char]] @ ''cd'' # []) empty_world
     = (Inr (), empty_world\<lparr>stdin := [], llama_log := llama_log empty_world @
          map UpdateInput (map butlast [''ab'' @ [escape_char]] @ [''cd''])\<rparr>)"
    by (rule read_and_pass_lines_complete)
      (simp_all add: demo_llama_def ends_with_escape_def escape_char_def)
  then show ?thesis
    by (simp add: process_interactive_input_eq empty_world_def io_defs ends_with_escape_def
        demo_llama_def)
qed


lemma enqueued_append: "enqueued tk (cs @ ds) = enqueued tk cs @ enqueued tk ds"
  by (induction tk cs rule: enqueued.induct) simp_all

lemma enqueued_lines:
  "enqueued tk (map (\<lambda>l. UpdateInput (f l)) lines) = concat (map (\<lambda>l. tk (f l)) lines)"
  by (induction lines) simp_all

lemma start_model_framings:
  assumes "start_model L a w = (Inr (pfx, sfx), w')"
  shows "\<exists>log. pfx = tokenize_result L log instruction_prefix True \<and>
               sfx = tokenize_result L (log @ [Tokenize instruction_prefix True])
                       response_suffix False"
  using assms unfolding start_model_def
  by (auto simp: io_defs split: sum.splits pyval.splits if_splits)

lemma main_setup_framings:
  assumes "main_setup L a0 w0 = (Inr (env, v0), w1)"
  shows "\<exists>log. inp_pfx env = tokenize_result L log instruction_prefix True \<and>
               inp_sfx env = tokenize_result L (log @ [Tokenize instruction_prefix True])
                               response_suffix False"
  using assms start_model_framings
  by (auto simp: main_setup_eq split: prod.splits sum.splits)

lemma user_turn_instruct:
  assumes "getattr (args env) ''instruct'' = Inr i" and "truthy i"
  shows "user_turn L env v w =
     (if raises L (llama_log w) (UpdateInputTokens (inp_pfx env)) then (Inl LlamaError, w)
      else case process_interactive_input L
                  (w\<lparr>llama_log := llama_log w @ [UpdateInputTokens (inp_pfx env)],
                     stdout := stdout w @ ''\<newline>'' @ ''> ''\<rparr>) of
             (Inl e, w2) \<Rightarrow> (Inl e, w2)
           | (Inr u, w2) \<Rightarrow>
               if raises L (llama_log w2) (UpdateInputTokens (inp_sfx env))
               then (Inl LlamaError, w2)
               else (Inr (v\<lparr>input_noecho := True, is_interacting := Some False\<rparr>),
                     w2\<lparr>llama_log := llama_log w2 @ [UpdateInputTokens (inp_sfx env)]\<rparr>))"
  using assms by (simp add: user_turn_def io_defs split: prod.splits sum.splits)

lemma user_turn_framed:
  assumes "getattr (args env) ''instruct'' = Inr i" and "truthy i"
    and "user_turn L env v w = (Inr v', w')"
  shows "\<exists>lines. lines \<noteq> [] \<and> stdin w = lines @ stdin w' \<and>
           list_all ends_with_escape (butlast lines) \<and> \<not> ends_with_escape (last lines) \<and>
           new_calls w w' = UpdateInputTokens (inp_pfx env)
                              # map (\<lambda>l. UpdateInput (strip_escape l)) lines
                              @ [UpdateInputTokens (inp_sfx env)] \<and>
           enqueued tk (llama_log w') =
             enqueued tk (llama_log w) @ inp_pfx env
               @ concat (map (\<lambda>l. tk (strip_escape l)) lines) @ inp_sfx env"
proof -
  let ?w1 = "w\<lparr>llama_log := llama_log w @ [UpdateInputTokens (inp_pfx env)],
               stdout := stdout w @ ''\<newline>'' @ ''> ''\<rparr>"
  from assms(3) obtain u w2 where
    pi: "process_interactive_input L ?w1 = (Inr u, w2)" and
    w': "w' = w2\<lparr>llama_log := llama_log w2 @ [UpdateInputTokens (inp_sfx env)]\<rparr>"
    unfolding user_turn_instruct [OF assms(1,2)]
    by (auto split: if_splits prod.splits sum.splits)
  from pi have "read_and_pass_lines L (stdin w) ?w1 = (Inr u, w2)"
    by (simp add: process_interactive_input_eq)
  then obtain lines where l: "lines \<noteq> []" "stdin w = lines @ stdin w2"
    "list_all ends_with_escape (butlast lines)" "\<not> ends_with_escape (last lines)"
    "w2 = ?w1\<lparr>stdin := stdin w2,
              llama_log := llama_log ?w1 @ map (\<lambda>l. UpdateInput (strip_escape l)) lines\<rparr>"
    using read_and_pass_lines_Inr by blast
  have log2: "llama_log w2 = llama_log w @ UpdateInputTokens (inp_pfx env)
                # map (\<lambda>l. UpdateInput (strip_escape l)) lines"
    by (subst l(5)) simp
  have log': "llama_log w' = llama_log w @ (UpdateInputTokens (inp_pfx env)
                # map (\<lambda>l. UpdateInput (strip_escape l)) lines
                @ [UpdateInputTokens (inp_sfx env)])"
    using w' log2 by simp
  have "new_calls w w' = UpdateInputTokens (inp_pfx env)
                # map (\<lambda>l. UpdateInput (strip_escape l)) lines
                @ [UpdateInputTokens (inp_sfx env)]"
    unfolding new_calls_def log' by simp
  moreover have "enqueued tk (llama_log w') =
             enqueued tk (llama_log w) @ inp_pfx env
               @ concat (map (\<lambda>l. tk (strip_escape l)) lines) @ inp_sfx env"
    unfolding log' by (simp add: enqueued_append enqueued_lines)
  moreover have "stdin w' = stdin w2" using w' by simp
  ultimately show ?thesis using l(1-4) by (intro exI [of _ lines]) simp
qed

text \<open>
  C5. In instruct mode (\<open>args.instruct\<close> is true in the arguments the loop uses), with
  \<open>inp_pfx\<close> and \<open>inp_sfx\<close> as the set-up of \<open>main\<close> computed them (the tokenisations
  of \<open>"\n\n### Instruction:\n\n"\<close> with and of \<open>"\n\n### Response:\n\n"\<close> without
  the begin-of-sequence token), every user turn that completes makes exactly the calls
  \<open>update_input_tokens(inp_pfx)\<close>, one \<open>update_input\<close> per physical line read, and
  \<open>update_input_tokens(inp_sfx)\<close>; so the tokens enqueued after the turn are those
  enqueued before it, followed by the prefix tokens, the tokenisations of the user's
  lines and the suffix tokens, in that order: nothing is dropped or repeated.
\<close>

theorem instruct_turn_is_framed:
  assumes "main_setup L a0 w0 = (Inr (env, v0), w1)"
    and "getattr (args env) ''instruct'' = Inr i" and "truthy i"
    and "user_turn L env v w = (Inr v', w')"
  shows "(\<exists>log. inp_pfx env = tokenize_result L log ''\<newline>\<newline>### Instruction:\<newline>\<newline>'' True \<and>
               inp_sfx env = tokenize_result L
                               (log @ [Tokenize ''\<newline>\<newline>### Instruction:\<newline>\<newline>'' True])
                               ''\<newline>\<newline>### Response:\<newline>\<newline>'' False)
       \<and> (\<exists>lines. lines \<noteq> [] \<and> stdin w = lines @ stdin w' \<and>
           list_all ends_with_escape (butlast lines) \<and> \<not> ends_with_escape (last lines) \<and>
           new_calls w w' = UpdateInputTokens (inp_pfx env)
                              # map (\<lambda>l. UpdateInput (strip_escape l)) lines
                              @ [UpdateInputTokens (inp_sfx env)] \<and>
           enqueued tk (llama_log w') =
             enqueued tk (llama_log w) @ inp_pfx env
               @ concat (map (\<lambda>l. tk (strip_escape l)) lines) @ inp_sfx env)"
  using main_setup_framings [OF assms(1)] user_turn_framed [OF assms(2,3,4), of tk]
  by (simp add: instruction_prefix_def response_suffix_def)


text \<open>The run \<open>--instruct -p Hi\<close> and a turn of two physical lines.\<close>

theorem instruct_turn_is_framed_witness:
  "\<exists>env v0 w1 v' w'.
     main_setup demo_llama
       (AList.update ''prompt'' (PyStr ''Hi'')
          (AList.update ''instruct'' (PyBool True) default_namespace)) empty_world
       = (Inr (env, v0), w1) \<and>
     user_turn demo_llama env v0 (w1\<lparr>stdin := [''Tell me'' @ [escape_char], ''a story'']\<rparr>)
       = (Inr v', w') \<and>
     new_calls (w1\<lparr>stdin := [''Tell me'' @ [escape_char], ''a story'']\<rparr>) w'
       = [UpdateInputTokens (inp_pfx env), UpdateInput ''Tell me'', UpdateInput ''a story'',
          UpdateInputTokens (inp_sfx env)]"
proof -
  let ?a = "AList.update ''prompt'' (PyStr ''Hi'')
              (AList.update ''instruct'' (PyBool True) default_namespace)"
  let ?in = "[''Tell me'' @ [escape_char], ''a story'']"
  obtain env v0 w1 where m: "main_setup demo_llama ?a empty_world = (Inr (env, v0), w1)"
    by (simp add: main_setup_eq read_prompt_eq getattr_def setattr_def default_namespace_value
        start_model_def select_mode_def io_defs gpt_params_attributes_def demo_llama_def
        empty_world_def instruct_antiprompt_def)
  have i: "getattr (args env) ''instruct'' = Inr (PyBool True)"
    using m
    by (auto simp: main_setup_eq read_prompt_eq getattr_def setattr_def default_namespace_value
        start_model_def select_mode_def io_defs gpt_params_attributes_def demo_llama_def
        empty_world_def instruct_antiprompt_def update_conv')
  have t: "truthy (PyBool True)" by simp
  let ?w = "w1\<lparr>stdin := ?in\<rparr>"
  have nr: "\<forall>log s. \<not> raises demo_llama log (UpdateInput s)" by (simp add: demo_llama_def)
  have rl: "\<And>w. read_and_pass_lines demo_llama ([''Tell me'' @ [escape_char]] @ ''a story'' # []) w
     = (Inr (), w\<lparr>stdin := [], llama_log := llama_log w @
          map UpdateInput (map butlast [''Tell me'' @ [escape_char]] @ [''a story''])\<rparr>)"
    by (rule read_and_pass_lines_complete [OF nr])
      (simp_all add: ends_with_escape_def escape_char_def)
  obtain v' w' where ut: "user_turn demo_llama env v0 ?w = (Inr v', w')" and sw: "stdin w' = []"
    using rl by (simp add: user_turn_instruct [OF i t] process_interactive_input_eq demo_llama_def)
  obtain lines where l: "stdin ?w = lines @ stdin w'"
    "new_calls ?w w' = UpdateInputTokens (inp_pfx env)
        # map (\<lambda>l. UpdateInput (strip_escape l)) lines @ [UpdateInputTokens (inp_sfx env)]"
    using instruct_turn_is_framed [OF m i t ut] by blast
  have "lines = ?in" using l(1) sw by simp
  then have "new_calls ?w w' = [UpdateInputTokens (inp_pfx env), UpdateInput ''Tell me'',
               UpdateInput ''a story'', UpdateInputTokens (inp_sfx env)]"
    using l(2) by (simp add: strip_escape_def ends_with_escape_def escape_char_def)
  then show ?thesis using m ut by blast
qed

lemma end_of_text_eq:
  "end_of_text env v w =
     (if is_finished v
      then (case getattr (args env) ''interactive'' of
              Inl e \<Rightarrow> (Inl e, w)
            | Inr i \<Rightarrow>
                if truthy i then (Inr (Continue (v\<lparr>is_interacting := Some True\<rparr>)), w)
                else (Inr (Break v), w\<lparr>stdout := stdout w @ end_of_text_marker @ ''\<newline>''\<rparr>))
      else (Inr (Continue v), w))"
  by (simp add: end_of_text_def io_defs split: sum.splits)

lemma reset_budget_eq:
  "reset_budget L env v w =
     (case getattr (args env) ''interactive'' of
        Inl e \<Rightarrow> (Inl e, w)
      | Inr i \<Rightarrow>
          if truthy i
          then (if raises L (llama_log w) IsFinished then (Inl LlamaError, w)
                else if is_finished_result L (llama_log w)
                then (if raises L (llama_log w @ [IsFinished]) ResetRemainingTokens
                      then (Inl LlamaError, w\<lparr>llama_log := llama_log w @ [IsFinished]\<rparr>)
                      else (Inr (v\<lparr>is_interacting := Some True\<rparr>),
                            w\<lparr>llama_log := llama_log w @ [IsFinished, ResetRemainingTokens]\<rparr>))
                else (Inr v, w\<lparr>llama_log := llama_log w @ [IsFinished]\<rparr>))
          else (Inr v, w))"
  by (simp add: reset_budget_def io_defs split: sum.splits)

lemma loop_iteration_cases:
  assumes "loop_iteration L env v w = (Inr f, w')"
  shows "(\<exists>v'. f = While_exit v')
       \<or> (\<exists>v2 w2. end_of_text env v2 w2 = (Inr f, w') \<and> (\<exists>v'. f = Break v'))
       \<or> (\<exists>v2 w2 v3 v'. end_of_text env v2 w2 = (Inr (Continue v3), w2) \<and>
                         reset_budget L env v3 w2 = (Inr v', w') \<and> f = Continue v')"
proof -
  have eot: "\<And>v2 w2 g w3. end_of_text env v2 w2 = (Inr g, w3) \<Longrightarrow>
               (\<exists>v3. g = Continue v3 \<and> w3 = w2) \<or> (\<exists>v3. g = Break v3)"
    by (auto simp: end_of_text_eq split: if_splits sum.splits)
  show ?thesis
    using assms eot unfolding loop_iteration_def io_bind_def io_return_def
    by (auto split: prod.splits sum.splits if_splits flow.splits) blast+
qed


lemma loop_iteration_Break:
  assumes "loop_iteration L env v w = (Inr (Break v'), w')"
  shows "(\<exists>i. getattr (args env) ''interactive'' = Inr i \<and> \<not> truthy i) \<and>
         (\<exists>out. stdout w' = out @ end_of_text_marker @ ''\<newline>'')"
proof -
  obtain v2 w2 where "end_of_text env v2 w2 = (Inr (Break v'), w')"
    using loop_iteration_cases [OF assms] by auto
  then show ?thesis
    by (auto simp: end_of_text_eq split: if_splits sum.splits)
qed

lemma main_loop_break:
  assumes "main_loop L env v w = Some (Inr By_break, w')"
  shows "(\<exists>i. getattr (args env) ''interactive'' = Inr i \<and> \<not> truthy i) \<and>
         (\<exists>out. stdout w' = out @ end_of_text_marker @ ''\<newline>'')"
proof -
  let ?Q = "\<lambda>env w'. (\<exists>i. getattr (args env) ''interactive'' = Inr i \<and> \<not> truthy i) \<and>
                      (\<exists>out. stdout w' = out @ end_of_text_marker @ ''\<newline>'')"
  have "\<forall>w'. y = (Inr By_break, w') \<longrightarrow> ?Q env w'" if "main_loop L env v w = Some y" for y
  proof (rule main_loop.raw_induct
      [where P = "\<lambda>L env v w y. \<forall>w'. y = (Inr By_break, w') \<longrightarrow> ?Q env w'", OF _ that])
    fix ml :: "llamacpp \<Rightarrow> loop_env \<Rightarrow> loop_vars \<Rightarrow> world \<Rightarrow> ((exn + loop_exit) \<times> world) option"
      and L env v w y
    assume IH: "\<And>L env v w y. ml L env v w = Some y \<Longrightarrow>
                  \<forall>w'. y = (Inr By_break, w') \<longrightarrow> ?Q env w'"
      and body: "(case loop_iteration L env v w of
                    (Inl e, w') \<Rightarrow> Some (Inl e, w')
                  | (Inr (Continue v'), w') \<Rightarrow> ml L env v' w'
                  | (Inr (Break v'), w') \<Rightarrow> Some (Inr By_break, w')
                  | (Inr (While_exit v'), w') \<Rightarrow> Some (Inr By_while, w')) = Some y"
    obtain r w1 where it: "loop_iteration L env v w = (r, w1)"
      by (cases "loop_iteration L env v w")
    show "\<forall>w'. y = (Inr By_break, w') \<longrightarrow> ?Q env w'"
    proof (cases r)
      case (Inl e)
      then show ?thesis using body it by auto
    next
      case (Inr f)
      show ?thesis
      proof (cases f)
        case (Continue v1)
        then have "ml L env v1 w1 = Some y" using body it Inr by simp
        from IH [OF this] show ?thesis .
      next
        case (Break v1)
        then have "y = (Inr By_break, w1)" using body it Inr by simp
        then show ?thesis using loop_iteration_Break [of L env v w v1 w1] it Inr Break by simp
      next
        case (While_exit v1)
        then show ?thesis using body it Inr by auto
      qed
    qed
  qed
  then show ?thesis using assms by blast
qed

lemma loop_iteration_interactive:
  assumes "getattr (args env) ''interactive'' = Inr i" and "truthy i"
    and "loop_iteration L env v w = (Inr f, w')"
  shows "(\<forall>v'. f \<noteq> Break v') \<and>
         (\<forall>v'. f = Continue v' \<longrightarrow>
            (\<exists>log. (llama_log w' = log @ [IsFinished] \<and> \<not> is_finished_result L log) \<or>
                   (llama_log w' = log @ [IsFinished, ResetRemainingTokens] \<and>
                    is_finished_result L log \<and> is_interacting v' = Some True)) \<and>
            (is_finished v' \<longrightarrow> is_interacting v' = Some True))"
proof -
  have a: "f \<noteq> Break v'" for v'
    using loop_iteration_Break [of L env v w v' w'] assms by auto
  have b: "(\<exists>log. (llama_log w' = log @ [IsFinished] \<and> \<not> is_finished_result L log) \<or>
                   (llama_log w' = log @ [IsFinished, ResetRemainingTokens] \<and>
                    is_finished_result L log \<and> is_interacting v' = Some True)) \<and>
            (is_finished v' \<longrightarrow> is_interacting v' = Some True)"
    if f: "f = Continue v'" for v'
  proof -
    obtain v2 w2 v3 where e: "end_of_text env v2 w2 = (Inr (Continue v3), w2)"
      and r: "reset_budget L env v3 w2 = (Inr v', w')"
      using loop_iteration_cases [OF assms(3)] f by auto
    from r have 1: "\<exists>log. (llama_log w' = log @ [IsFinished] \<and> \<not> is_finished_result L log) \<or>
                   (llama_log w' = log @ [IsFinished, ResetRemainingTokens] \<and>
                    is_finished_result L log \<and> is_interacting v' = Some True)"
      unfolding reset_budget_eq using assms(1,2)
      by (intro exI [of _ "llama_log w2"]) (auto split: if_splits)
    from e have "is_finished v3 \<longrightarrow> is_interacting v3 = Some True"
      unfolding end_of_text_eq using assms(1,2) by (auto split: if_splits)
    moreover from r have "v' = v3 \<or> v' = v3\<lparr>is_interacting := Some True\<rparr>"
      unfolding reset_budget_eq using assms(1,2) by (auto split: if_splits)
    ultimately have "is_finished v' \<longrightarrow> is_interacting v' = Some True" by auto
    then show ?thesis using 1 by blast
  qed
  show ?thesis using a b by blast
qed

text \<open>
  C8. (1) When the loop is left by \<open>break\<close>, with \<open>" [end of text]"\<close> printed last,
  \<open>args.interactive\<close> is false. (2) In interactive mode no iteration takes the
  end-of-text \<open>break\<close>; an iteration that runs to its end has asked
  \<open>model.is_finished()\<close> at line 193, and when the answer was true it has called
  \<open>reset_remaining_tokens\<close> and set \<open>is_interacting\<close>; and after the end of text was
  reported by \<open>infer_text\<close> the iteration ends with \<open>is_interacting\<close> set.
\<close>

theorem end_of_text_exit_only_in_batch_mode:
  "(main_loop L env v w = Some (Inr By_break, w') \<longrightarrow>
      (\<exists>i. getattr (args env) ''interactive'' = Inr i \<and> \<not> truthy i) \<and>
      (\<exists>out. stdout w' = out @ '' [end of text]'' @ ''\<newline>''))
   \<and> (getattr (args env) ''interactive'' = Inr i \<and> truthy i \<and>
       loop_iteration L env v w = (Inr f, w1) \<longrightarrow>
         (\<forall>v'. f \<noteq> Break v') \<and>
         (\<forall>v'. f = Continue v' \<longrightarrow>
            (\<exists>log. (llama_log w1 = log @ [IsFinished] \<and> \<not> is_finished_result L log) \<or>
                   (llama_log w1 = log @ [IsFinished, ResetRemainingTokens] \<and>
                    is_finished_result L log \<and> is_interacting v' = Some True)) \<and>
            (is_finished v' \<longrightarrow> is_interacting v' = Some True)))"
  using main_loop_break [of L env v w w'] loop_iteration_interactive [of env i L v w f w1]
  by (simp add: end_of_text_marker_def)


text \<open>
  A batch loop that ends with the marker, and an interactive iteration in which the
  session reports finished and the budget is reset.
\<close>

theorem end_of_text_exit_only_in_batch_mode_witness:
  "main_loop demo_llama
      \<lparr>args = AList.update ''antiprompt'' (PyStr [])
                (AList.update ''prompt'' (PyStr '' Hi'') default_namespace),
       inp_pfx = [], inp_sfx = []\<rparr>
      \<lparr>is_interacting = None, input_noecho = False, is_finished = False\<rparr> empty_world
    = Some (Inr By_break,
        empty_world\<lparr>stdout := ''.'' @ '' [end of text]'' @ ''\<newline>'',
                    llama_log := [IsFinished, HasUnconsumedInput, InferText]\<rparr>)
   \<and> (\<exists>i. getattr (AList.update ''antiprompt'' (PyStr [])
                    (AList.update ''prompt'' (PyStr '' Hi'') default_namespace)) ''interactive''
            = Inr i \<and> \<not> truthy i)
   \<and> (\<exists>v' w1 log.
         loop_iteration demo_llama
           \<lparr>args = AList.update ''interactive'' (PyBool True) default_namespace,
            inp_pfx = [], inp_sfx = []\<rparr>
           \<lparr>is_interacting = Some True, input_noecho = False, is_finished = False\<rparr>
           (empty_world\<lparr>stdin := [''hello'']\<rparr>) = (Inr (Continue v'), w1) \<and>
         llama_log w1 = log @ [IsFinished, ResetRemainingTokens] \<and>
         is_finished_result demo_llama log \<and> is_interacting v' = Some True)"
proof -
  let ?env0 = "\<lparr>args = AList.update ''antiprompt'' (PyStr [])
                (AList.update ''prompt'' (PyStr '' Hi'') default_namespace),
       inp_pfx = [], inp_sfx = []\<rparr>"
  let ?v0 = "\<lparr>is_interacting = None, input_noecho = False, is_finished = False\<rparr>"
  let ?w0 = "empty_world\<lparr>stdout := ''.'' @ '' [end of text]'' @ ''\<newline>'',
                    llama_log := [IsFinished, HasUnconsumedInput, InferText]\<rparr>"
  let ?envI = "\<lparr>args = AList.update ''interactive'' (PyBool True) default_namespace,
            inp_pfx = [], inp_sfx = []\<rparr>"
  let ?vI = "\<lparr>is_interacting = Some True, input_noecho = False, is_finished = False\<rparr>"
  let ?wI = "empty_world\<lparr>stdin := [''hello'']\<rparr>"
  let ?v' = "\<lparr>is_interacting = Some True, input_noecho = True, is_finished = True\<rparr>"
  let ?w1 = "empty_world\<lparr>stdin := [], stdout := ''.'',
               llama_log := [IsFinished, HasUnconsumedInput, InferText, IsAntipromptPresent,
                             UpdateInput ''hello'', IsFinished, ResetRemainingTokens]\<rparr>"
  have it0: "loop_iteration demo_llama ?env0 ?v0 empty_world = (Inr (Break (?v0\<lparr>is_finished := True\<rparr>)), ?w0)"
    by (simp add: loop_iteration_def generate_def interact_def end_of_text_eq io_defs
        getattr_def default_namespace_value demo_llama_def empty_world_def
        end_of_text_marker_def)
  have run0: "main_loop demo_llama ?env0 ?v0 empty_world = Some (Inr By_break, ?w0)"
    by (subst main_loop.simps) (simp add: it0)
  have itI: "loop_iteration demo_llama ?envI ?vI ?wI = (Inr (Continue ?v'), ?w1)"
    by (simp add: loop_iteration_def generate_def interact_def user_turn_def
        process_interactive_input_eq ends_with_escape_def escape_char_def
        end_of_text_eq reset_budget_eq io_defs getattr_def default_namespace_value
        demo_llama_def empty_world_def)
  have gi: "getattr (args ?envI) ''interactive'' = Inr (PyBool True)" "truthy (PyBool True)"
    by (simp_all add: getattr_def default_namespace_value)
  note t = end_of_text_exit_only_in_batch_mode
  have 1: "\<exists>i. getattr (args ?env0) ''interactive'' = Inr i \<and> \<not> truthy i"
    using t [THEN conjunct1, of demo_llama ?env0 ?v0 empty_world ?w0] run0 by blast
  have "\<exists>log. (llama_log ?w1 = log @ [IsFinished] \<and> \<not> is_finished_result demo_llama log) \<or>
              (llama_log ?w1 = log @ [IsFinished, ResetRemainingTokens] \<and>
               is_finished_result demo_llama log \<and> is_interacting ?v' = Some True)"
    using t [THEN conjunct2, of ?envI "PyBool True" demo_llama ?vI ?wI "Continue ?v'" ?w1]
      itI gi by blast
  then have 2: "\<exists>log. llama_log ?w1 = log @ [IsFinished, ResetRemainingTokens] \<and>
               is_finished_result demo_llama log \<and> is_interacting ?v' = Some True"
    by auto
  show ?thesis using run0 1 2 itI by simp
qed

end
